theory Spec2Isabelle
  imports Complex_Main "HOL-Library.Sublist"
begin

section \<open>Numbers of the JavaScript runtime\<close>

text \<open>
  The weather server is JavaScript, and its numbers are IEEE double-precision values.  A
  finite double is kept as the real number it stands for: \<open>number\<close> is \<open>real\<close>, and
  \<open>to_double\<close> rounds a real to the nearest double, a tie going to the even significand.
  The numbers in the records below are doubles.  So that a number can also be given as the
  decimal of a response body, which \<^verbatim>\<open>JSON.parse\<close> turns into the nearest double, every
  arithmetic operation below first rounds its operands with \<open>to_double\<close>, which changes
  nothing on a double, and then rounds its exact result.  There is no NaN and
  no infinity in the model: the numbers of the response bodies are taken to lie in the range
  of the finite doubles, and a product that leaves this range is compared as JavaScript
  compares the infinity it yields.  A value that JavaScript calls \<^verbatim>\<open>undefined\<close> is
  \<open>None\<close>.  Timestamps are the integer milliseconds of \<^verbatim>\<open>Date.now()\<close>; the reading of the
  clock is an argument of every function that looks at it.
\<close>

type_synonym number = real

function expo_ge1 :: "real \<Rightarrow> int" where
  \<comment> \<open>For \<open>x \<ge> 1\<close>: the \<open>e\<close> with \<open>2^e \<le> x < 2^(e+1)\<close>.\<close>
  "expo_ge1 x = (if 2 \<le> x then expo_ge1 (x / 2) + 1 else 0)"
  by pat_completeness auto
termination
proof (relation "measure (\<lambda>x. nat \<lfloor>x\<rfloor>)")
  show "wf (measure (\<lambda>x::real. nat \<lfloor>x\<rfloor>))" by simp
next
  fix x :: real
  assume a: "2 \<le> x"
  have "\<lfloor>x / 2\<rfloor> < \<lfloor>x\<rfloor>" using a by (simp add: floor_less_iff) linarith
  moreover have "0 < \<lfloor>x\<rfloor>" using a by simp
  ultimately show "(x / 2, x) \<in> measure (\<lambda>x. nat \<lfloor>x\<rfloor>)" by simp
qed

function expo_lt1 :: "real \<Rightarrow> int" where
  \<comment> \<open>For \<open>0 < x < 1\<close>: the \<open>e\<close> with \<open>2^e \<le> x < 2^(e+1)\<close>.\<close>
  "expo_lt1 x = (if 0 < x \<and> x < 1 then expo_lt1 (2 * x) - 1 else 0)"
  by pat_completeness auto
termination
proof (relation "measure (\<lambda>x. nat \<lceil>1 / x\<rceil>)")
  show "wf (measure (\<lambda>x::real. nat \<lceil>1 / x\<rceil>))" by simp
next
  fix x :: real
  assume a: "0 < x \<and> x < 1"
  then have y: "1 < 1 / x" by simp
  have c: "2 \<le> \<lceil>1 / x\<rceil>" using y by linarith
  have "(1 / x) / 2 \<le> of_int \<lceil>1 / x\<rceil> / 2" by (simp add: divide_right_mono)
  also have "\<dots> \<le> of_int (\<lceil>1 / x\<rceil> - 1)" using c by simp
  finally have "\<lceil>(1 / x) / 2\<rceil> \<le> \<lceil>1 / x\<rceil> - 1" by (simp only: ceiling_le_iff)
  moreover have "1 / (2 * x) = (1 / x) / 2" by simp
  ultimately have "\<lceil>1 / (2 * x)\<rceil> < \<lceil>1 / x\<rceil>" by (simp add: mult.commute)
  then show "(2 * x, x) \<in> measure (\<lambda>x. nat \<lceil>1 / x\<rceil>)" using c a by simp
qed

declare expo_ge1.simps [simp del] expo_lt1.simps [simp del]

definition expo :: "real \<Rightarrow> int" where
  \<comment> \<open>The binary exponent of a non-zero number.\<close>
  "expo x = (if 1 \<le> \<bar>x\<bar> then expo_ge1 \<bar>x\<bar> else expo_lt1 \<bar>x\<bar>)"

definition ulp :: "real \<Rightarrow> real" where
  \<comment> \<open>The distance between neighbouring doubles around \<open>x\<close>: 52 bits below the exponent, the
      exponent being at least \<open>-1022\<close> (below it the doubles are subnormal).\<close>
  "ulp x = 2 powi (max (expo x) (- 1022) - 52)"

definition round_even :: "real \<Rightarrow> int" where
  \<comment> \<open>The nearest integer, a tie going to the even one.\<close>
  "round_even y =
     (let f = \<lfloor>y\<rfloor>; r = y - of_int f in
      if r < 1 / 2 then f else if 1 / 2 < r then f + 1 else if even f then f else f + 1)"

definition to_double :: "real \<Rightarrow> number" where
  "to_double x = of_int (round_even (x / ulp x)) * ulp x"

definition double_overflow :: "real \<Rightarrow> bool" where
  \<comment> \<open>An exact result that rounds to an infinity: half a step beyond the largest double.\<close>
  "double_overflow x = (2 ^ 1024 - 2 ^ 970 \<le> \<bar>x\<bar>)"

definition js_add :: "number \<Rightarrow> number \<Rightarrow> number" where
  \<comment> \<open>\<^verbatim>\<open>x + y\<close>, for a sum in the range of the doubles.\<close>
  "js_add x y = to_double (to_double x + to_double y)"

definition js_div :: "number \<Rightarrow> number \<Rightarrow> number" where
  \<comment> \<open>\<^verbatim>\<open>x / y\<close>, for a quotient in the range of the doubles.\<close>
  "js_div x y = to_double (to_double x / to_double y)"

definition js_gt_times :: "number \<Rightarrow> number \<Rightarrow> number \<Rightarrow> bool" where
  \<comment> \<open>\<^verbatim>\<open>g > s * c\<close>.  A product beyond the doubles is plus or minus infinity: nothing is
      greater than the first, every finite number is greater than the second.\<close>
  "js_gt_times g s c =
     (let p = to_double s * to_double c in
      if double_overflow p then p < 0 else to_double g > to_double p)"

definition Math_round :: "number \<Rightarrow> int" where
  \<comment> \<open>\<^verbatim>\<open>Math.round\<close>: the nearest integer, a tie going towards plus infinity.\<close>
  "Math_round x = \<lfloor>x + 1 / 2\<rfloor>"

definition js_rem :: "int \<Rightarrow> int \<Rightarrow> int" where
  \<comment> \<open>The operator \<^verbatim>\<open>%\<close> on integral values: the remainder takes the sign of the dividend.\<close>
  "js_rem a b = sgn a * (\<bar>a\<bar> mod \<bar>b\<bar>)"

section \<open>The cache (cacheUtils)\<close>

record cache_entry =
  timestamp :: int
  text' :: string

datatype cache_type = Current | Forecast

record weatherCache =
  current :: "string \<rightharpoonup> cache_entry"
  forecast :: "string \<rightharpoonup> cache_entry"

definition cacheTime :: int where
  "cacheTime = 30 * 60 * 1000"

definition empty_cache :: weatherCache where
  "empty_cache = \<lparr>current = Map.empty, forecast = Map.empty\<rparr>"

fun namespace :: "cache_type \<Rightarrow> weatherCache \<Rightarrow> (string \<rightharpoonup> cache_entry)" where
  "namespace Current c = current c"
| "namespace Forecast c = forecast c"

definition getCacheEntry :: "cache_type \<Rightarrow> string \<Rightarrow> int \<Rightarrow> weatherCache \<Rightarrow> cache_entry option" where
  \<comment> \<open>\<open>now\<close> is the value of \<^verbatim>\<open>Date.now()\<close> at the read.  The cache is only read.\<close>
  "getCacheEntry type key now c =
     (case namespace type c key of
        None \<Rightarrow> None
      | Some e \<Rightarrow> if now - timestamp e < cacheTime then Some e else None)"

fun setCacheEntry :: "cache_type \<Rightarrow> string \<Rightarrow> string \<Rightarrow> int \<Rightarrow> weatherCache \<Rightarrow> weatherCache" where
  "setCacheEntry Current key txt now c =
     c\<lparr>current := (current c)(key \<mapsto> \<lparr>timestamp = now, text' = txt\<rparr>)\<rparr>"
| "setCacheEntry Forecast key txt now c =
     c\<lparr>forecast := (forecast c)(key \<mapsto> \<lparr>timestamp = now, text' = txt\<rparr>)\<rparr>"

section \<open>Wind direction (weatherUtils)\<close>

definition directions :: "string list" where
  "directions = [''N'', ''NNE'', ''NE'', ''ENE'', ''E'', ''ESE'', ''SE'', ''SSE'',
                 ''S'', ''SSW'', ''SW'', ''WSW'', ''W'', ''WNW'', ''NW'', ''NNW'']"

definition compass_index :: "number \<Rightarrow> int" where
  \<comment> \<open>\<^verbatim>\<open>Math.round(degrees / 22.5) % 16\<close>\<close>
  "compass_index degrees = js_rem (Math_round (js_div degrees 22.5)) 16"

definition array_get :: "'a list \<Rightarrow> int \<Rightarrow> 'a option" where
  \<comment> \<open>An array read: \<^verbatim>\<open>undefined\<close> outside the array.\<close>
  "array_get xs i = (if 0 \<le> i \<and> i < int (length xs) then Some (xs ! nat i) else None)"

definition formatWindDirection :: "number \<Rightarrow> string option" where
  "formatWindDirection degrees = array_get directions (compass_index degrees)"


section \<open>Conversions to strings\<close>

text \<open>
  The built-in conversions of the JavaScript runtime that the server calls are not part of
  the repository.  They are the fields of a record that every function using them takes as
  its first argument.
\<close>

record runtime =
  toLowerCase :: "string \<Rightarrow> string"
  fraction_string :: "number \<Rightarrow> string"
  toFixed :: "nat \<Rightarrow> number \<Rightarrow> string"
  toLocaleString :: "int \<Rightarrow> string"
  weekday_long :: "string \<Rightarrow> string"
  toLocaleDateString :: "string \<Rightarrow> string"

definition digit_char :: "nat \<Rightarrow> char" where
  "digit_char n = char_of (48 + n)"

fun nat_string :: "nat \<Rightarrow> string" where
  "nat_string n = (if n < 10 then [digit_char n] else nat_string (n div 10) @ [digit_char (n mod 10)])"

declare nat_string.simps [simp del]

definition int_string :: "int \<Rightarrow> string" where
  "int_string i = (if i < 0 then CHR ''-'' # nat_string (nat (- i)) else nat_string (nat i))"

definition digit_value :: "char \<Rightarrow> nat" where
  "digit_value ch = of_char ch - 48"

definition string_nat :: "string \<Rightarrow> nat" where
  \<comment> \<open>Reads decimal digits back; it is used to show that \<open>nat_string\<close> loses nothing.\<close>
  "string_nat s = foldl (\<lambda>a ch. 10 * a + digit_value ch) 0 s"

definition Number_toString :: "runtime \<Rightarrow> number \<Rightarrow> string" where
  \<comment> \<open>A number inside a template literal.  An integral value below \<open>2^53\<close> is written in
      decimal digits; every other value is left to the runtime.\<close>
  "Number_toString rt x =
     (if x = of_int \<lfloor>x\<rfloor> \<and> \<bar>x\<bar> < 2 ^ 53 then int_string \<lfloor>x\<rfloor> else fraction_string rt x)"

fun optional_Number_toString :: "runtime \<Rightarrow> number option \<Rightarrow> string" where
  "optional_Number_toString rt None = ''undefined''"
| "optional_Number_toString rt (Some x) = Number_toString rt x"

fun optional_string :: "string option \<Rightarrow> string" where
  "optional_string None = ''undefined''"
| "optional_string (Some s) = s"

definition nl :: string where
  "nl = [CHR 0x0A]"

definition degree_sign :: string where
  "degree_sign = [CHR 0xB0]"

section \<open>Weather data and the formatter (weatherUtils)\<close>

datatype js_error = Error string

fun message :: "js_error \<Rightarrow> string" where
  "message (Error m) = m"

record location =
  latitude :: number
  longitude :: number
  name :: "string option"
  country :: "string option"
  admin1 :: "string option"

record weather =
  weather_code :: number
  temperature_2m :: number
  apparent_temperature :: number
  relative_humidity_2m :: number
  precipitation :: number
  rain :: number
  cloud_cover :: number
  wind_speed_10m :: number
  wind_direction_10m :: number
  wind_gusts_10m :: number

record daily =
  time :: "string list"
  daily_weather_code :: "number list"
  temperature_2m_max :: "number list"
  temperature_2m_min :: "number list"
  precipitation_sum :: "number list"
  precipitation_hours :: "number list"
  wind_speed_10m_max :: "number list"
  wind_gusts_10m_max :: "number list"
  wind_direction_10m_dominant :: "number list"

definition weatherCodes :: "(number \<times> string) list" where
  "weatherCodes =
    [(0, ''Clear sky''), (1, ''Mainly clear''), (2, ''Partly cloudy''), (3, ''Overcast''),
     (45, ''Fog''), (48, ''Depositing rime fog''),
     (51, ''Light drizzle''), (53, ''Moderate drizzle''), (55, ''Dense drizzle''),
     (56, ''Light freezing drizzle''), (57, ''Dense freezing drizzle''),
     (61, ''Slight rain''), (63, ''Moderate rain''), (65, ''Heavy rain''),
     (66, ''Light freezing rain''), (67, ''Heavy freezing rain''),
     (71, ''Slight snow fall''), (73, ''Moderate snow fall''), (75, ''Heavy snow fall''),
     (77, ''Snow grains''),
     (80, ''Slight rain showers''), (81, ''Moderate rain showers''), (82, ''Violent rain showers''),
     (85, ''Slight snow showers''), (86, ''Heavy snow showers''),
     (95, ''Thunderstorm''), (96, ''Thunderstorm with slight hail''),
     (99, ''Thunderstorm with heavy hail'')]"

definition getWeatherDescription :: "runtime \<Rightarrow> number option \<Rightarrow> string" where
  \<comment> \<open>The argument is \<open>None\<close> when the caller read it outside an array.\<close>
  "getWeatherDescription rt code =
     (case Option.bind code (map_of weatherCodes) of
        Some d \<Rightarrow> d
      | None \<Rightarrow> ''Unknown (code: '' @ optional_Number_toString rt code @ '')'')"

definition current_gust_note :: "runtime \<Rightarrow> weather \<Rightarrow> string" where
  "current_gust_note rt w =
     (if js_gt_times (wind_gusts_10m w) (wind_speed_10m w) 1.5
      then '' with gusts up to '' @ Number_toString rt (wind_gusts_10m w) @ '' km/h''
      else [])"

definition rain_note :: "runtime \<Rightarrow> weather \<Rightarrow> string" where
  "rain_note rt w =
     (if rain w > 0 then '' (Rain: '' @ Number_toString rt (rain w) @ '' mm)'' else [])"

definition current_report_head :: "runtime \<Rightarrow> weather \<Rightarrow> string \<Rightarrow> string" where
  \<comment> \<open>The template of the current-conditions report, up to the wind direction.\<close>
  "current_report_head rt w label =
     nl @ ''# Current Weather for '' @ label @ nl @ nl @
     ''**Conditions:** '' @ getWeatherDescription rt (Some (weather_code w)) @ nl @
     ''**Temperature:** '' @ Number_toString rt (temperature_2m w) @ degree_sign @
       ''C (Feels like: '' @ Number_toString rt (apparent_temperature w) @ degree_sign @ ''C)'' @ nl @
     ''**Humidity:** '' @ Number_toString rt (relative_humidity_2m w) @ ''%'' @ nl @
     ''**Wind:** '' @ Number_toString rt (wind_speed_10m w) @ '' km/h '' @
       optional_string (formatWindDirection (wind_direction_10m w))"

definition current_report_tail :: "runtime \<Rightarrow> int \<Rightarrow> weather \<Rightarrow> string \<Rightarrow> string" where
  \<comment> \<open>The rest of the template, after the gust note.  \<open>t\<close> is the clock at \<^verbatim>\<open>new Date()\<close>;
      \<open>indent\<close> is the blanks between the last line break and the closing quote.\<close>
  "current_report_tail rt t w indent =
     nl @ ''**Cloud Cover:** '' @ Number_toString rt (cloud_cover w) @ ''%'' @ nl @
     ''**Precipitation:** '' @ Number_toString rt (precipitation w) @ '' mm'' @ rain_note rt w @ nl @ nl @
     ''*Updated: '' @ toLocaleString rt t @ ''*'' @ nl @ indent"

definition current_report :: "runtime \<Rightarrow> int \<Rightarrow> weather \<Rightarrow> string \<Rightarrow> string \<Rightarrow> string" where
  "current_report rt t w label indent =
     current_report_head rt w label @ current_gust_note rt w @ current_report_tail rt t w indent"

definition named_label :: "location \<Rightarrow> string" where
  \<comment> \<open>\<^verbatim>\<open>`${location.name}, ${location.country}`\<close>\<close>
  "named_label loc = optional_string (name loc) @ '', '' @ optional_string (country loc)"

definition TypeError :: js_error where
  "TypeError = Error ''Cannot read properties of null''"

fun formatCurrentWeather :: "runtime \<Rightarrow> int \<Rightarrow> weather \<Rightarrow> location option \<Rightarrow> js_error + string" where
  \<comment> \<open>The test \<^verbatim>\<open>location ? ... : ...\<close> is true of every object.  With no object for
      \<open>location\<close>, the other branch reads \<^verbatim>\<open>location.latitude\<close> and throws.\<close>
  "formatCurrentWeather rt t w (Some loc) = Inr (current_report rt t w (named_label loc) ''  '')"
| "formatCurrentWeather rt t w None = Inl TypeError"

definition forecast_gust_note :: "runtime \<Rightarrow> daily \<Rightarrow> nat \<Rightarrow> string" where
  \<comment> \<open>A comparison with \<^verbatim>\<open>undefined\<close> is false.\<close>
  "forecast_gust_note rt fc i =
     (case (array_get (wind_gusts_10m_max fc) (int i), array_get (wind_speed_10m_max fc) (int i)) of
        (Some g, Some s) \<Rightarrow>
          if js_gt_times g s 1.3 then '' with gusts up to '' @ Number_toString rt g @ '' km/h'' else []
      | _ \<Rightarrow> [])"

definition forecast_day_head :: "runtime \<Rightarrow> daily \<Rightarrow> nat \<Rightarrow> string" where
  \<comment> \<open>What one round of the loop appends, up to the wind direction.\<close>
  "forecast_day_head rt fc i =
     ''## '' @ weekday_long rt (time fc ! i) @ '', '' @ toLocaleDateString rt (time fc ! i) @ nl @
     ''**Conditions:** '' @ getWeatherDescription rt (array_get (daily_weather_code fc) (int i)) @ nl @
     ''**Temperature:** '' @ optional_Number_toString rt (array_get (temperature_2m_min fc) (int i)) @
       degree_sign @ ''C to '' @
       optional_Number_toString rt (array_get (temperature_2m_max fc) (int i)) @ degree_sign @ ''C'' @ nl @
     ''**Precipitation:** '' @ optional_Number_toString rt (array_get (precipitation_sum fc) (int i)) @
       '' mm over '' @
       optional_Number_toString rt (array_get (precipitation_hours fc) (int i)) @ '' hours'' @ nl @
     ''**Wind:** '' @ optional_Number_toString rt (array_get (wind_speed_10m_max fc) (int i)) @ '' km/h '' @
       optional_string (Option.bind (array_get (wind_direction_10m_dominant fc) (int i)) formatWindDirection)"

definition forecast_day :: "runtime \<Rightarrow> daily \<Rightarrow> nat \<Rightarrow> string" where
  "forecast_day rt fc i = forecast_day_head rt fc i @ forecast_gust_note rt fc i @ nl @ nl"

function forecast_loop :: "runtime \<Rightarrow> daily \<Rightarrow> nat \<Rightarrow> string \<Rightarrow> string" where
  "forecast_loop rt fc i formattedResponse =
     (if i < length (time fc)
      then forecast_loop rt fc (Suc i) (formattedResponse @ forecast_day rt fc i)
      else formattedResponse)"
  by pat_completeness auto
termination
  by (relation "measure (\<lambda>(rt, fc, i, r). length (time fc) - i)") auto

declare forecast_loop.simps [simp del]

definition formatForecast :: "runtime \<Rightarrow> int \<Rightarrow> daily \<Rightarrow> location \<Rightarrow> number \<Rightarrow> string" where
  "formatForecast rt t fc loc days =
     forecast_loop rt fc 0
       (''# '' @ Number_toString rt days @ ''-Day Weather Forecast for '' @ named_label loc @ nl @ nl)
     @ ''*Updated: '' @ toLocaleString rt t @ ''*''"

section \<open>The upstream services\<close>

text \<open>
  What the two web services answer is an input of the model: \<open>geocoding up city\<close> is the
  outcome of \<^verbatim>\<open>fetchJson\<close> on the geocoding request for \<open>city\<close>, an error when
  \<^verbatim>\<open>fetchJson\<close> throws and otherwise the field \<^verbatim>\<open>results\<close> of the body (\<open>None\<close> when the
  body has none); \<open>current_weather\<close> and \<open>daily_forecast\<close> are the outcomes of the two weather
  requests, an error standing also for a body that the formatter cannot read.  Every call
  the server makes is recorded as an event.
\<close>

record upstream =
  geocoding :: "string \<Rightarrow> js_error + location list option"
  current_weather :: "number \<Rightarrow> number \<Rightarrow> js_error + weather"
  daily_forecast :: "number \<Rightarrow> number \<Rightarrow> number \<Rightarrow> js_error + daily"

datatype event =
    CacheRead cache_type string
  | CacheWrite cache_type string
  | Geocode string
  | FetchCurrent number number
  | FetchForecast number number number

definition getCoordinates :: "upstream \<Rightarrow> string \<Rightarrow> js_error + location" where
  "getCoordinates up city =
     (case geocoding up city of
        Inl e \<Rightarrow> Inl e
      | Inr None \<Rightarrow> Inl (Error (''City not found: '' @ city))
      | Inr (Some []) \<Rightarrow> Inl (Error (''City not found: '' @ city))
      | Inr (Some (loc # _)) \<Rightarrow> Inr loc)"

definition getCurrentWeather :: "upstream \<Rightarrow> number \<Rightarrow> number \<Rightarrow> js_error + weather" where
  "getCurrentWeather up lat lon = current_weather up lat lon"

definition getForecast :: "upstream \<Rightarrow> number \<Rightarrow> number \<Rightarrow> number \<Rightarrow> js_error + daily" where
  "getForecast up lat lon days = daily_forecast up lat lon days"

section \<open>The tool handlers (weatherTools)\<close>

text \<open>
  A handler takes the cache and returns its result, the cache after it, and the events in
  the order they happened.  The three readings of the clock a handler can make are the
  fields of \<open>clock\<close>: in \<^verbatim>\<open>getCacheEntry\<close>, in the formatter, and in \<^verbatim>\<open>setCacheEntry\<close>.
\<close>

record clock =
  now_read :: int
  now_render :: int
  now_write :: int

type_synonym 'r effect = "'r \<times> weatherCache \<times> event list"

definition handleGetWeather ::
    "runtime \<Rightarrow> upstream \<Rightarrow> clock \<Rightarrow> string \<Rightarrow> weatherCache \<Rightarrow> (js_error + string) effect" where
  "handleGetWeather rt up clk city c =
     (let cacheKey = toLowerCase rt city in
      case getCacheEntry Current cacheKey (now_read clk) c of
        Some cacheEntry \<Rightarrow> (Inr (text' cacheEntry), c, [CacheRead Current cacheKey])
      | None \<Rightarrow>
         (case getCoordinates up city of
            Inl e \<Rightarrow> (Inl e, c, [CacheRead Current cacheKey, Geocode city])
          | Inr loc \<Rightarrow>
             (case getCurrentWeather up (latitude loc) (longitude loc) of
                Inl e \<Rightarrow>
                  (Inl e, c, [CacheRead Current cacheKey, Geocode city,
                              FetchCurrent (latitude loc) (longitude loc)])
              | Inr w \<Rightarrow>
                 (case formatCurrentWeather rt (now_render clk) w (Some loc) of
                    Inl e \<Rightarrow>
                      (Inl e, c, [CacheRead Current cacheKey, Geocode city,
                                  FetchCurrent (latitude loc) (longitude loc)])
                  | Inr formattedResponse \<Rightarrow>
                      (Inr formattedResponse,
                       setCacheEntry Current cacheKey formattedResponse (now_write clk) c,
                       [CacheRead Current cacheKey, Geocode city,
                        FetchCurrent (latitude loc) (longitude loc),
                        CacheWrite Current cacheKey])))))"

definition default_days :: "number option \<Rightarrow> number" where
  \<comment> \<open>The parameter default \<^verbatim>\<open>days = 7\<close>.\<close>
  "default_days days = (case days of None \<Rightarrow> 7 | Some d \<Rightarrow> d)"

definition forecast_cacheKey :: "runtime \<Rightarrow> string \<Rightarrow> number \<Rightarrow> string" where
  \<comment> \<open>\<^verbatim>\<open>`${city.toLowerCase()}_${days}`\<close>\<close>
  "forecast_cacheKey rt city days = toLowerCase rt city @ ''_'' @ Number_toString rt days"

definition handleGetForecast ::
    "runtime \<Rightarrow> upstream \<Rightarrow> clock \<Rightarrow> string \<Rightarrow> number option \<Rightarrow> weatherCache
      \<Rightarrow> (js_error + string) effect" where
  "handleGetForecast rt up clk city days_param c =
     (let days = default_days days_param;
          cacheKey = forecast_cacheKey rt city days in
      case getCacheEntry Forecast cacheKey (now_read clk) c of
        Some cacheEntry \<Rightarrow> (Inr (text' cacheEntry), c, [CacheRead Forecast cacheKey])
      | None \<Rightarrow>
         (case getCoordinates up city of
            Inl e \<Rightarrow> (Inl e, c, [CacheRead Forecast cacheKey, Geocode city])
          | Inr loc \<Rightarrow>
             (case getForecast up (latitude loc) (longitude loc) days of
                Inl e \<Rightarrow>
                  (Inl e, c, [CacheRead Forecast cacheKey, Geocode city,
                              FetchForecast (latitude loc) (longitude loc) days])
              | Inr fc \<Rightarrow>
                 (let formattedResponse = formatForecast rt (now_render clk) fc loc days in
                  (Inr formattedResponse,
                   setCacheEntry Forecast cacheKey formattedResponse (now_write clk) c,
                   [CacheRead Forecast cacheKey, Geocode city,
                    FetchForecast (latitude loc) (longitude loc) days,
                    CacheWrite Forecast cacheKey])))))"

definition handleGetWeatherByCoordinates ::
    "runtime \<Rightarrow> upstream \<Rightarrow> clock \<Rightarrow> number \<Rightarrow> number \<Rightarrow> weatherCache
      \<Rightarrow> (js_error + string) effect" where
  \<comment> \<open>\<^verbatim>\<open>locationInfo = { latitude, longitude }\<close> has no name and no country.\<close>
  "handleGetWeatherByCoordinates rt up clk lat lon c =
     (case getCurrentWeather up lat lon of
        Inl e \<Rightarrow> (Inl e, c, [FetchCurrent lat lon])
      | Inr w \<Rightarrow>
         (let locationInfo = \<lparr>latitude = lat, longitude = lon, name = None, country = None,
                              admin1 = None\<rparr>
          in (formatCurrentWeather rt (now_render clk) w (Some locationInfo), c,
              [FetchCurrent lat lon])))"

section \<open>The wrapper that registers a tool (mcpWrapper)\<close>

text \<open>
  A tool response holds one content item of type text; the model keeps its text.  The
  handlers above return strings, which \<^verbatim>\<open>_formatToolResponse\<close> wraps as they are.
\<close>

definition formatToolResponse :: "string \<Rightarrow> string" where
  "formatToolResponse result = result"

definition formatToolError :: "js_error \<Rightarrow> string" where
  "formatToolError error = ''Error: '' @ message error"

definition registerTool :: "(weatherCache \<Rightarrow> (js_error + string) effect) \<Rightarrow> weatherCache \<Rightarrow> string effect" where
  \<comment> \<open>The function that \<^verbatim>\<open>registerTool\<close> hands to the server: try the handler, catch its error.\<close>
  "registerTool handler c =
     (case handler c of
        (Inr result, c', ev) \<Rightarrow> (formatToolResponse result, c', ev)
      | (Inl error, c', ev) \<Rightarrow> (formatToolError error, c', ev))"

section \<open>The single-file server (src/index.js)\<close>

text \<open>
  The single-file server registers the same three tools with the handlers written in place.
  Each reads the clock once, as \<open>now\<close>, tests the cache with the condition of
  \<^verbatim>\<open>getCacheEntry\<close>, writes the entry with the timestamp \<open>now\<close>, and catches every error of
  its body itself.  Its report templates are the ones above, with six blanks before the
  closing quote; its forecast loop is the one of \<^verbatim>\<open>formatForecast\<close>.
\<close>

definition get_weather_try ::
    "runtime \<Rightarrow> upstream \<Rightarrow> clock \<Rightarrow> string \<Rightarrow> weatherCache \<Rightarrow> (js_error + string) effect" where
  "get_weather_try rt up clk city c =
     (let cacheKey = toLowerCase rt city; now = now_read clk in
      case getCacheEntry Current cacheKey now c of
        Some cacheEntry \<Rightarrow> (Inr (text' cacheEntry), c, [CacheRead Current cacheKey])
      | None \<Rightarrow>
         (case getCoordinates up city of
            Inl e \<Rightarrow> (Inl e, c, [CacheRead Current cacheKey, Geocode city])
          | Inr loc \<Rightarrow>
             (case getCurrentWeather up (latitude loc) (longitude loc) of
                Inl e \<Rightarrow>
                  (Inl e, c, [CacheRead Current cacheKey, Geocode city,
                              FetchCurrent (latitude loc) (longitude loc)])
              | Inr w \<Rightarrow>
                 (let formattedResponse =
                        current_report rt (now_render clk) w (named_label loc) ''      ''
                  in (Inr formattedResponse,
                      setCacheEntry Current cacheKey formattedResponse now c,
                      [CacheRead Current cacheKey, Geocode city,
                       FetchCurrent (latitude loc) (longitude loc),
                       CacheWrite Current cacheKey])))))"

definition get_weather_tool ::
    "runtime \<Rightarrow> upstream \<Rightarrow> clock \<Rightarrow> string \<Rightarrow> weatherCache \<Rightarrow> string effect" where
  "get_weather_tool rt up clk city c =
     (case get_weather_try rt up clk city c of
        (Inr txt, c', ev) \<Rightarrow> (txt, c', ev)
      | (Inl error, c', ev) \<Rightarrow> (''Error retrieving weather: '' @ message error, c', ev))"

definition get_forecast_try ::
    "runtime \<Rightarrow> upstream \<Rightarrow> clock \<Rightarrow> string \<Rightarrow> number option \<Rightarrow> weatherCache
      \<Rightarrow> (js_error + string) effect" where
  "get_forecast_try rt up clk city days_param c =
     (let days = default_days days_param;
          cacheKey = forecast_cacheKey rt city days;
          now = now_read clk in
      case getCacheEntry Forecast cacheKey now c of
        Some cacheEntry \<Rightarrow> (Inr (text' cacheEntry), c, [CacheRead Forecast cacheKey])
      | None \<Rightarrow>
         (case getCoordinates up city of
            Inl e \<Rightarrow> (Inl e, c, [CacheRead Forecast cacheKey, Geocode city])
          | Inr loc \<Rightarrow>
             (case getForecast up (latitude loc) (longitude loc) days of
                Inl e \<Rightarrow>
                  (Inl e, c, [CacheRead Forecast cacheKey, Geocode city,
                              FetchForecast (latitude loc) (longitude loc) days])
              | Inr fc \<Rightarrow>
                 (let formattedResponse = formatForecast rt (now_render clk) fc loc days in
                  (Inr formattedResponse,
                   setCacheEntry Forecast cacheKey formattedResponse now c,
                   [CacheRead Forecast cacheKey, Geocode city,
                    FetchForecast (latitude loc) (longitude loc) days,
                    CacheWrite Forecast cacheKey])))))"

definition get_forecast_tool ::
    "runtime \<Rightarrow> upstream \<Rightarrow> clock \<Rightarrow> string \<Rightarrow> number option \<Rightarrow> weatherCache \<Rightarrow> string effect" where
  "get_forecast_tool rt up clk city days_param c =
     (case get_forecast_try rt up clk city days_param c of
        (Inr txt, c', ev) \<Rightarrow> (txt, c', ev)
      | (Inl error, c', ev) \<Rightarrow> (''Error retrieving forecast: '' @ message error, c', ev))"

definition coordinates_label :: "runtime \<Rightarrow> number \<Rightarrow> number \<Rightarrow> string" where
  \<comment> \<open>\<^verbatim>\<open>`Coordinates (${latitude.toFixed(4)}, ${longitude.toFixed(4)})`\<close>\<close>
  "coordinates_label rt lat lon =
     ''Coordinates ('' @ toFixed rt 4 lat @ '', '' @ toFixed rt 4 lon @ '')''"

definition get_weather_by_coordinates_tool ::
    "runtime \<Rightarrow> upstream \<Rightarrow> clock \<Rightarrow> number \<Rightarrow> number \<Rightarrow> weatherCache \<Rightarrow> string effect" where
  "get_weather_by_coordinates_tool rt up clk lat lon c =
     (case getCurrentWeather up lat lon of
        Inl error \<Rightarrow> (''Error retrieving weather: '' @ message error, c, [FetchCurrent lat lon])
      | Inr w \<Rightarrow>
          (current_report rt (now_render clk) w (coordinates_label rt lat lon) ''      '', c,
           [FetchCurrent lat lon]))"

section \<open>Parameter schemas and the call of a tool\<close>

definition days_schema :: "number option \<Rightarrow> bool" where
  \<comment> \<open>\<^verbatim>\<open>z.number().min(1).max(14).optional()\<close>\<close>
  "days_schema days = (case days of None \<Rightarrow> True | Some d \<Rightarrow> 1 \<le> d \<and> d \<le> 14)"

datatype 'r tool_call = InvalidParams | Completed 'r

text \<open>
  Modelled from the spec: the protocol library that receives a tool call and checks its
  parameters is not in the repository.  The specification says that a parameter outside its
  contract is rejected before any network call; so a call whose parameters fail the schema
  ends without running the handler, and any other call runs it.
\<close>

definition call_tool :: "bool \<Rightarrow> (weatherCache \<Rightarrow> 'r effect) \<Rightarrow> weatherCache \<Rightarrow> 'r tool_call effect" where
  \<comment> \<open>Modelled from the spec: the check of the parameters comes first.\<close>
  "call_tool params_valid handler c =
     (if params_valid
      then (case handler c of (r, c', ev) \<Rightarrow> (Completed r, c', ev))
      else (InvalidParams, c, []))"

section \<open>A runtime and data for examples\<close>

definition ascii_lower :: "char \<Rightarrow> char" where
  "ascii_lower ch = (let n = of_char ch :: nat in if 65 \<le> n \<and> n \<le> 90 then char_of (n + 32) else ch)"

definition sample_runtime :: runtime where
  \<comment> \<open>Lower-casing of ASCII letters; dates are shown as they come.  The examples use
      integral numbers only, so the other two conversions are never looked at.\<close>
  "sample_runtime =
     \<lparr>toLowerCase = map ascii_lower, fraction_string = (\<lambda>x. ''?''), toFixed = (\<lambda>n x. ''?''),
      toLocaleString = int_string, weekday_long = (\<lambda>s. s), toLocaleDateString = (\<lambda>s. s)\<rparr>"

definition sample_clock :: clock where
  "sample_clock = \<lparr>now_read = 1000, now_render = 1001, now_write = 1002\<rparr>"

definition sample_weather :: "number \<Rightarrow> number \<Rightarrow> weather" where
  "sample_weather speed gusts =
     \<lparr>weather_code = 3, temperature_2m = 12, apparent_temperature = 10,
      relative_humidity_2m = 80, precipitation = 0, rain = 0, cloud_cover = 100,
      wind_speed_10m = speed, wind_direction_10m = 270, wind_gusts_10m = gusts\<rparr>"

definition sample_daily :: "number \<Rightarrow> number \<Rightarrow> daily" where
  "sample_daily speed gusts =
     \<lparr>time = [''2025-01-01''], daily_weather_code = [3], temperature_2m_max = [9],
      temperature_2m_min = [2], precipitation_sum = [0], precipitation_hours = [0],
      wind_speed_10m_max = [speed], wind_gusts_10m_max = [gusts],
      wind_direction_10m_dominant = [270]\<rparr>"

definition london :: location where
  "london = \<lparr>latitude = 51, longitude = 0, name = Some ''London'',
             country = Some ''United Kingdom'', admin1 = Some ''England''\<rparr>"

definition sample_upstream :: upstream where
  \<comment> \<open>The geocoder knows London only.\<close>
  "sample_upstream =
     \<lparr>geocoding = (\<lambda>city. if city = ''London'' then Inr (Some [london]) else Inr None),
      current_weather = (\<lambda>lat lon. Inr (sample_weather 10 16)),
      daily_forecast = (\<lambda>lat lon days. Inr (sample_daily 10 14))\<rparr>"

section \<open>Properties of the cache\<close>

lemma namespace_set_same:
  "namespace ns (setCacheEntry ns k t t0 c) k = Some \<lparr>timestamp = t0, text' = t\<rparr>"
  by (cases ns) simp_all

text \<open>
  C1.  A write at time \<open>t0\<close> followed by a read at time \<open>now\<close> returns the entry, with the
  text unchanged, exactly when \<open>now - t0\<close> is less than 30 minutes (1800000 ms), and returns
  nothing otherwise.  In both cases the entry is still in the mapping of its namespace: the
  read removes nothing.
\<close>

theorem cache_round_trip:
  "getCacheEntry ns k now (setCacheEntry ns k t t0 c) =
     (if now - t0 < 30 * 60 * 1000 then Some \<lparr>timestamp = t0, text' = t\<rparr> else None)
   \<and> namespace ns (setCacheEntry ns k t t0 c) k = Some \<lparr>timestamp = t0, text' = t\<rparr>"
  by (simp add: getCacheEntry_def namespace_set_same cacheTime_def)

theorem cache_round_trip_witness:
  "getCacheEntry Current ''london'' 1799999
       (setCacheEntry Current ''london'' ''sunny'' 0 empty_cache)
     = Some \<lparr>timestamp = 0, text' = ''sunny''\<rparr>
   \<and> getCacheEntry Current ''london'' 1800000
       (setCacheEntry Current ''london'' ''sunny'' 0 empty_cache) = None"
  using cache_round_trip [of Current "''london''" 1799999 "''sunny''" 0 empty_cache]
        cache_round_trip [of Current "''london''" 1800000 "''sunny''" 0 empty_cache]
  by simp

text \<open>
  C7.  A write into one namespace does not change what a read of the other namespace
  returns, for the same key or any other.
\<close>

theorem namespace_isolation:
  "getCacheEntry Forecast k now (setCacheEntry Current k' t1 t0 c) = getCacheEntry Forecast k now c
   \<and> getCacheEntry Current k now (setCacheEntry Forecast k' t1 t0 c) = getCacheEntry Current k now c"
  by (simp add: getCacheEntry_def)

section \<open>Properties of the rounding to doubles\<close>

lemma round_even_int: "round_even (of_int n) = n"
  by (simp add: round_even_def)

lemma round_even_mono:
  assumes "a \<le> b"
  shows "round_even a \<le> round_even b"
proof (cases "\<lfloor>a\<rfloor> = \<lfloor>b\<rfloor>")
  case True
  then show ?thesis using assms by (auto simp: round_even_def Let_def)
next
  case False
  then have "\<lfloor>a\<rfloor> < \<lfloor>b\<rfloor>" using assms floor_mono [of a b] by linarith
  moreover have "round_even a \<le> \<lfloor>a\<rfloor> + 1" by (simp add: round_even_def Let_def)
  moreover have "\<lfloor>b\<rfloor> \<le> round_even b" by (simp add: round_even_def Let_def)
  ultimately show ?thesis by linarith
qed

lemma round_even_minus: "round_even (- y) = - round_even y"
proof (cases "y = of_int \<lfloor>y\<rfloor>")
  case True
  then obtain n where "y = of_int n" by blast
  then show ?thesis using round_even_int [of "- n"] by (simp add: round_even_int)
next
  case False
  then have lt: "of_int \<lfloor>y\<rfloor> < y" using of_int_floor_le [of y] by linarith
  have "\<lfloor>- y\<rfloor> = - \<lfloor>y\<rfloor> - 1"
  proof (rule floor_unique)
    show "of_int (- \<lfloor>y\<rfloor> - 1) \<le> - y" using floor_correct [of y] by simp linarith
    show "- y < of_int (- \<lfloor>y\<rfloor> - 1) + 1" using lt by simp
  qed
  then show ?thesis
    using lt by (auto simp: round_even_def Let_def)
qed

lemma expo_ge1_bounds:
  "1 \<le> x \<Longrightarrow> 0 \<le> expo_ge1 x \<and> 2 powi (expo_ge1 x) \<le> x \<and> x < 2 powi (expo_ge1 x + 1)"
proof (induction x rule: expo_ge1.induct)
  case (1 x)
  show ?case
  proof (cases "2 \<le> x")
    case True
    then have ih: "0 \<le> expo_ge1 (x / 2) \<and> 2 powi (expo_ge1 (x / 2)) \<le> x / 2
        \<and> x / 2 < 2 powi (expo_ge1 (x / 2) + 1)"
      using 1 by simp
    have e: "expo_ge1 x = expo_ge1 (x / 2) + 1" using True by (simp add: expo_ge1.simps [of x])
    show ?thesis using ih unfolding e by (simp add: power_int_add)
  next
    case False
    then show ?thesis using 1(2) by (simp add: expo_ge1.simps [of x])
  qed
qed

lemma expo_lt1_bounds:
  "0 < x \<Longrightarrow> x < 1 \<Longrightarrow> expo_lt1 x < 0 \<and> 2 powi (expo_lt1 x) \<le> x \<and> x < 2 powi (expo_lt1 x + 1)"
proof (induction x rule: expo_lt1.induct)
  case (1 x)
  have e: "expo_lt1 x = expo_lt1 (2 * x) - 1" using 1(2,3) by (simp add: expo_lt1.simps [of x])
  show ?case
  proof (cases "2 * x < 1")
    case True
    then have ih: "expo_lt1 (2 * x) < 0 \<and> 2 powi (expo_lt1 (2 * x)) \<le> 2 * x
        \<and> 2 * x < 2 powi (expo_lt1 (2 * x) + 1)"
      using 1 by simp
    show ?thesis using ih unfolding e by (simp add: power_int_add power_int_diff)
  next
    case False
    then have "expo_lt1 (2 * x) = 0" by (simp add: expo_lt1.simps [of "2 * x"])
    then show ?thesis using False 1(2,3) unfolding e by simp
  qed
qed

lemma expo_bounds:
  assumes "x \<noteq> 0"
  shows "2 powi (expo x) \<le> \<bar>x\<bar>" and "\<bar>x\<bar> < 2 powi (expo x + 1)"
  using assms expo_ge1_bounds [of "\<bar>x\<bar>"] expo_lt1_bounds [of "\<bar>x\<bar>"]
  by (auto simp: expo_def)

lemma powi2_less_D: "(2::real) powi a < 2 powi b \<Longrightarrow> a < b"
  using power_int_increasing [of b a "2::real"] by (cases "a < b") simp_all

lemma expo_less:
  assumes "x \<noteq> 0" and "\<bar>x\<bar> < 2 powi k"
  shows "expo x < k"
  using expo_bounds(1) [OF assms(1)] assms(2) by (intro powi2_less_D) linarith

lemma expo_ge:
  assumes "2 powi k \<le> \<bar>x\<bar>"
  shows "k \<le> expo x"
proof -
  have "(0::real) < 2 powi k" by simp
  then have "0 < \<bar>x\<bar>" using assms by linarith
  then have "x \<noteq> 0" by simp
  then have "2 powi k < (2::real) powi (expo x + 1)" using expo_bounds(2) [of x] assms by linarith
  then show ?thesis using powi2_less_D by fastforce
qed

lemma ulp_pos: "0 < ulp x"
  by (simp add: ulp_def)

lemma ulp_minus: "ulp (- x) = ulp x"
  by (simp add: ulp_def expo_def)

lemma to_double_minus: "to_double (- x) = - to_double x"
  by (simp add: to_double_def ulp_minus round_even_minus)

lemma to_double_zero: "to_double 0 = 0"
  using round_even_int [of 0] by (simp add: to_double_def)

lemma to_double_nonneg:
  assumes "0 \<le> x"
  shows "0 \<le> to_double x"
proof -
  have "0 \<le> x / ulp x" using assms ulp_pos [of x] by simp
  then have "round_even 0 \<le> round_even (x / ulp x)" by (rule round_even_mono)
  then have "0 \<le> round_even (x / ulp x)" using round_even_int [of 0] by simp
  then show ?thesis using ulp_pos [of x] by (simp add: to_double_def)
qed

lemma to_double_exact:
  assumes x: "x = of_int n * 2 powi s" and n: "\<bar>n\<bar> < 2 ^ 53" and s: "- 1074 \<le> s"
  shows "to_double x = x"
proof (cases "n = 0")
  case True
  then show ?thesis using x by (simp add: to_double_zero)
next
  case False
  then have x0: "x \<noteq> 0" using x by simp
  have "\<bar>x\<bar> = of_int \<bar>n\<bar> * 2 powi s" using x by (simp add: abs_mult)
  also have "\<dots> < 2 ^ 53 * 2 powi s"
  proof -
    have "real_of_int \<bar>n\<bar> < 2 ^ 53" using n by (metis of_int_less_iff of_int_numeral of_int_power)
    then show ?thesis by (simp add: mult_strict_right_mono)
  qed
  also have "\<dots> = 2 powi (s + 53)" by (simp add: power_int_add)
  finally have "expo x < s + 53" by (rule expo_less [OF x0])
  then have le: "max (expo x) (- 1022) - 52 \<le> s" using s by simp
  define d where "d = s - (max (expo x) (- 1022) - 52)"
  have d: "0 \<le> d" using le by (simp add: d_def)
  have u: "ulp x = 2 powi (s - d)" by (simp add: ulp_def d_def)
  have "x / ulp x = of_int n * (2 powi s / 2 powi (s - d))" using x u by simp
  also have "2 powi s / 2 powi (s - d) = (2::real) powi d"
    by (simp add: power_int_diff)
  also have "(2::real) powi d = of_int (2 ^ nat d)" using d by (simp add: power_int_nonneg_exp)
  finally have q: "x / ulp x = of_int (n * 2 ^ nat d)" by simp
  then have "round_even (x / ulp x) = n * 2 ^ nat d" by (simp only: round_even_int)
  then have "to_double x = of_int (n * 2 ^ nat d) * ulp x" by (simp add: to_double_def)
  also have "\<dots> = (x / ulp x) * ulp x" using q by simp
  also have "\<dots> = x" using ulp_pos [of x] by simp
  finally show ?thesis .
qed

lemma to_double_mono_pos:
  assumes "0 < x" and "x \<le> y"
  shows "to_double x \<le> to_double y"
proof -
  define ex where "ex = max (expo x) (- 1022)"
  define ey where "ey = max (expo y) (- 1022)"
  have x0: "x \<noteq> 0" and y0: "y \<noteq> 0" using assms by auto
  have "2 powi (expo x) \<le> \<bar>y\<bar>" using expo_bounds(1) [OF x0] assms by linarith
  then have "expo x \<le> expo y" by (rule expo_ge)
  then have exy: "ex \<le> ey" by (simp add: ex_def ey_def)
  have ux: "ulp x = 2 powi (ex - 52)" and uy: "ulp y = 2 powi (ey - 52)"
    by (simp_all add: ulp_def ex_def ey_def)
  show ?thesis
  proof (cases "ex = ey")
    case True
    then have u: "ulp y = ulp x" using ux uy by simp
    have "x / ulp x \<le> y / ulp x" using assms ulp_pos [of x] by (simp add: divide_right_mono)
    then have "round_even (x / ulp x) \<le> round_even (y / ulp x)" by (rule round_even_mono)
    then have "real_of_int (round_even (x / ulp x)) * ulp x \<le> real_of_int (round_even (y / ulp x)) * ulp x"
      using ulp_pos [of x] by (simp add: mult_right_mono)
    then show ?thesis by (simp add: to_double_def u)
  next
    case False
    then have lt: "ex < ey" using exy by simp
    then have ey: "ey = expo y" by (simp add: ex_def ey_def max_def split: if_splits)
    have "x < 2 powi (expo x + 1)" using expo_bounds(2) [OF x0] assms by simp
    also have "\<dots> \<le> 2 powi (ex + 1)" by (intro power_int_increasing) (simp_all add: ex_def)
    finally have "x / ulp x < 2 powi (ex + 1) / 2 powi (ex - 52)"
      unfolding ux by (simp add: divide_strict_right_mono)
    also have "(2::real) powi (ex + 1) / 2 powi (ex - 52) = 2 powi 53"
      by (simp add: power_int_diff power_int_add)
    also have "(2::real) powi 53 = of_int (2 ^ 53)" by simp
    finally have "round_even (x / ulp x) \<le> round_even (of_int (2 ^ 53))"
      by (intro round_even_mono) simp
    then have "round_even (x / ulp x) \<le> 2 ^ 53" by (simp only: round_even_int)
    then have "real_of_int (round_even (x / ulp x)) \<le> 2 ^ 53"
      by (metis of_int_le_iff of_int_numeral of_int_power)
    then have "to_double x \<le> 2 ^ 53 * 2 powi (ex - 52)"
      unfolding to_double_def ux by (intro mult_right_mono) simp_all
    also have "\<dots> = 2 powi (ex + 1)" by (simp add: power_int_diff power_int_add)
    also have "\<dots> \<le> 2 powi ey" using lt by (intro power_int_increasing) simp_all
    finally have a: "to_double x \<le> 2 powi ey" .
    have "2 powi ey \<le> y" using expo_bounds(1) [OF y0] assms ey by simp
    then have "2 powi ey / 2 powi (ey - 52) \<le> y / ulp y"
      unfolding uy by (simp add: divide_right_mono)
    moreover have "(2::real) powi ey / 2 powi (ey - 52) = of_int (2 ^ 52)"
      by (simp add: power_int_diff)
    ultimately have "round_even (of_int (2 ^ 52)) \<le> round_even (y / ulp y)"
      by (intro round_even_mono) simp
    then have "2 ^ 52 \<le> round_even (y / ulp y)" by (simp only: round_even_int)
    then have "(2::real) ^ 52 \<le> real_of_int (round_even (y / ulp y))"
      by (metis of_int_le_iff of_int_numeral of_int_power)
    then have "2 ^ 52 * 2 powi (ey - 52) \<le> to_double y"
      unfolding to_double_def uy by (intro mult_right_mono) simp_all
    moreover have "(2::real) ^ 52 * 2 powi (ey - 52) = 2 powi ey" by (simp add: power_int_diff)
    ultimately show ?thesis using a by linarith
  qed
qed

lemma to_double_mono:
  assumes "x \<le> y"
  shows "to_double x \<le> to_double y"
proof -
  consider "0 < x" | "x \<le> 0" "0 \<le> y" | "y < 0" by linarith
  then show ?thesis
  proof cases
    case 1
    then show ?thesis using assms by (rule to_double_mono_pos)
  next
    case 2
    then have "0 \<le> to_double y" and "0 \<le> to_double (- x)" by (simp_all add: to_double_nonneg)
    then show ?thesis by (simp add: to_double_minus)
  next
    case 3
    then have "to_double (- y) \<le> to_double (- x)" using assms by (intro to_double_mono_pos) simp_all
    then show ?thesis by (simp add: to_double_minus)
  qed
qed

lemma to_double_idem: "to_double (to_double x) = to_double x"
proof (cases "x = 0")
  case True
  then show ?thesis by (simp add: to_double_zero)
next
  case False
  define e where "e = max (expo x) (- 1022)"
  define n where "n = round_even (x / ulp x)"
  have u: "ulp x = 2 powi (e - 52)" by (simp add: ulp_def e_def)
  have v: "to_double x = of_int n * 2 powi (e - 52)" by (simp add: to_double_def n_def u)
  have "\<bar>x\<bar> < 2 powi (expo x + 1)" using expo_bounds(2) [OF False] .
  also have "\<dots> \<le> 2 powi (e + 1)" by (intro power_int_increasing) (simp_all add: e_def)
  finally have b: "\<bar>x\<bar> / ulp x < 2 powi (e + 1) / 2 powi (e - 52)"
    unfolding u by (simp add: divide_strict_right_mono)
  have p: "(2::real) powi (e + 1) / 2 powi (e - 52) = of_int (2 ^ 53)"
    by (simp add: power_int_diff power_int_add)
  have "x / ulp x \<le> \<bar>x\<bar> / ulp x" using ulp_pos [of x] by (simp add: divide_right_mono)
  then have "x / ulp x \<le> of_int (2 ^ 53)" using b p by linarith
  then have "n \<le> round_even (of_int (2 ^ 53))" unfolding n_def by (rule round_even_mono)
  then have hi: "n \<le> 2 ^ 53" by (simp only: round_even_int)
  have "(- \<bar>x\<bar>) / ulp x \<le> x / ulp x" using ulp_pos [of x] by (intro divide_right_mono) simp_all
  moreover have "(- \<bar>x\<bar>) / ulp x = - (\<bar>x\<bar> / ulp x)" by simp
  ultimately have "of_int (- (2 ^ 53)) \<le> x / ulp x" using b p by simp
  then have "round_even (of_int (- (2 ^ 53))) \<le> n" unfolding n_def by (rule round_even_mono)
  then have lo: "- (2 ^ 53) \<le> n" by (simp only: round_even_int)
  have s: "- 1074 \<le> e - 52" by (simp add: e_def)
  show ?thesis
  proof (cases "\<bar>n\<bar> < 2 ^ 53")
    case True
    show ?thesis by (rule to_double_exact [OF v True s])
  next
    case False
    then have "n = 2 ^ 53 \<or> n = - (2 ^ 53)" using hi lo by linarith
    then have "to_double x = of_int (sgn n) * 2 powi (e + 1)"
      unfolding v by (auto simp: power_int_diff power_int_add)
    moreover have "\<bar>sgn n\<bar> < 2 ^ 53" by (simp add: sgn_if)
    moreover have "- 1074 \<le> e + 1" using s by simp
    ultimately show ?thesis by (rule to_double_exact)
  qed
qed

lemma to_double_between:
  assumes "a \<le> x" and "x \<le> b" and "to_double a = a" and "to_double b = b"
  shows "a \<le> to_double x" and "to_double x \<le> b"
  using to_double_mono [OF assms(1)] to_double_mono [OF assms(2)] assms(3,4) by simp_all

lemma to_double_int:
  assumes "\<bar>n\<bar> < 2 ^ 53"
  shows "to_double (of_int n) = of_int n"
  by (rule to_double_exact [of _ n 0]) (use assms in simp_all)

lemma to_double_quarters:
  assumes "\<bar>n\<bar> < 2 ^ 53"
  shows "to_double (of_int n / 4) = of_int n / 4" and "to_double (of_int n / 2) = of_int n / 2"
proof -
  show "to_double (of_int n / 4) = of_int n / 4"
    by (rule to_double_exact [of _ n "- 2"]) (use assms in \<open>simp_all add: power_int_minus\<close>)
  show "to_double (of_int n / 2) = of_int n / 2"
    by (rule to_double_exact [of _ n "- 1"]) (use assms in \<open>simp_all add: power_int_minus\<close>)
qed

section \<open>Properties of the compass conversion\<close>

lemma Math_round_add_int: "Math_round (x + of_int n) = Math_round x + n"
proof -
  have "x + of_int n + 1 / 2 = (x + 1 / 2) + of_int n" by simp
  then show ?thesis unfolding Math_round_def by (simp only: floor_add_int)
qed

lemma Math_round_nonneg: "0 \<le> x \<Longrightarrow> 0 \<le> Math_round x"
  unfolding Math_round_def by simp

lemma Math_round_between:
  assumes "of_int k - 1 / 2 \<le> x" and "x < of_int k + 1 / 2"
  shows "Math_round x = k"
  unfolding Math_round_def by (rule floor_unique) (use assms in simp_all)

lemma to_double_22_5: "to_double 22.5 = 22.5"
  using to_double_quarters(2) [of 45] by simp

lemma js_div_22_5: "js_div d 22.5 = to_double (to_double d / 22.5)"
  by (simp only: js_div_def to_double_22_5)

lemma js_add_360: "js_add d 360 = to_double (to_double d + 360)"
  using to_double_int [of 360] by (simp add: js_add_def)

lemma compass_index_nonneg:
  assumes "0 \<le> d"
  shows "compass_index d = Math_round (js_div d 22.5) mod 16"
proof -
  have "0 \<le> to_double d / 22.5" using to_double_nonneg [OF assms] by simp
  then have "0 \<le> js_div d 22.5" unfolding js_div_22_5 by (rule to_double_nonneg)
  then have "0 \<le> Math_round (js_div d 22.5)" by (rule Math_round_nonneg)
  then show ?thesis
    by (simp add: compass_index_def js_rem_def sgn_if)
qed

lemma compass_index_range:
  assumes "0 \<le> d"
  shows "0 \<le> compass_index d \<and> compass_index d < 16"
  using compass_index_nonneg [OF assms] by simp

lemma directions_lookup:
  assumes "0 \<le> i" and "i < 16"
  shows "array_get directions i = Some (directions ! nat i)" and "directions ! nat i \<in> set directions"
proof -
  have l: "length directions = 16" by (simp add: directions_def)
  show "array_get directions i = Some (directions ! nat i)"
    using assms by (simp add: array_get_def l)
  have "nat i < length directions" using assms by (simp add: l)
  then show "directions ! nat i \<in> set directions" by (rule nth_mem)
qed

lemma compass_index_just_below_zero:
  assumes "- 11.25 \<le> d" and "d < 0"
  shows "compass_index d = 0" and "compass_index (js_add d 360) = 0"
proof -
  have a: "to_double (- 45 / 4) = - 45 / 4" using to_double_quarters(1) [of "- 45"] by simp
  have b: "to_double (- 1 / 2) = - 1 / 2" using to_double_quarters(2) [of "- 1"] by simp
  have td: "- 45 / 4 \<le> to_double d" "to_double d \<le> 0"
    using to_double_between [of "- 45 / 4" d 0] assms a by (simp_all add: to_double_zero)
  then have "- 1 / 2 \<le> to_double d / 22.5" "to_double d / 22.5 \<le> 0" by simp_all
  then have "- 1 / 2 \<le> js_div d 22.5" "js_div d 22.5 \<le> 0"
    unfolding js_div_22_5 using to_double_between [of "- 1 / 2" "to_double d / 22.5" 0] b
    by (simp_all add: to_double_zero)
  then have "Math_round (js_div d 22.5) = 0" by (intro Math_round_between) simp_all
  then show "compass_index d = 0" by (simp add: compass_index_def js_rem_def)
  define y where "y = js_add d 360"
  have c: "to_double (1395 / 4) = 1395 / 4" using to_double_quarters(1) [of 1395] by simp
  have e: "to_double 360 = 360" using to_double_int [of 360] by simp
  have y: "1395 / 4 \<le> y" "y \<le> 360"
    unfolding y_def js_add_360
    using to_double_between [of "1395 / 4" "to_double d + 360" 360] td c e by simp_all
  have ty: "to_double y = y" unfolding y_def js_add_360 by (rule to_double_idem)
  have f: "to_double (31 / 2) = 31 / 2" using to_double_quarters(2) [of 31] by simp
  have g: "to_double 16 = 16" using to_double_int [of 16] by simp
  have "31 / 2 \<le> y / 22.5" "y / 22.5 \<le> 16" using y by simp_all
  then have "31 / 2 \<le> js_div y 22.5" "js_div y 22.5 \<le> 16"
    unfolding js_div_22_5 ty using to_double_between [of "31 / 2" "y / 22.5" 16] f g by simp_all
  then have "Math_round (js_div y 22.5) = 16" by (intro Math_round_between) simp_all
  then show "compass_index (js_add d 360) = 0" by (simp add: compass_index_def js_rem_def y_def)
qed

lemma Math_round_quotient:
  assumes m0: "0 \<le> m" and m: "m < 2 ^ 44" and j: "(2::real) ^ j < 2 ^ 44"
  shows "Math_round (to_double (of_int m / 2 ^ j / 22.5)) = Math_round (of_int m / 2 ^ j / 22.5)"
    and "0 \<le> Math_round (of_int m / 2 ^ j / 22.5)"
proof -
  define p :: real where "p = 2 ^ j"
  define M :: real where "M = of_int m"
  define q :: real where "q = M / p / 22.5"
  define k where "k = Math_round q"
  define X where "X = real_of_int k * p"
  have p: "1 \<le> p" "p < 2 ^ 44" using j by (simp_all add: p_def)
  have M: "0 \<le> M" "M < 2 ^ 44"
    using m0 m by (simp_all add: M_def)
  have qp: "q * p = 2 * M / 45" using p by (simp add: q_def)
  have q0: "0 \<le> q" using p M by (simp add: q_def)
  have k: "real_of_int k \<le> q + 1 / 2" "q + 1 / 2 < real_of_int k + 1"
    unfolding k_def Math_round_def by linarith+
  have k0: "0 \<le> k" unfolding k_def using q0 by (rule Math_round_nonneg)
  have X1: "X \<le> 2 * M / 45 + p / 2"
  proof -
    have "real_of_int k * p \<le> (q + 1 / 2) * p" using k(1) p by (intro mult_right_mono) simp_all
    also have "\<dots> = q * p + p / 2" by (simp add: distrib_right)
    finally show ?thesis unfolding qp X_def .
  qed
  have X2: "2 * M / 45 < X + p / 2"
  proof -
    have "(q + 1 / 2) * p < (real_of_int k + 1) * p" using k(2) p by (intro mult_strict_right_mono) simp_all
    moreover have "(q + 1 / 2) * p = q * p + p / 2" by (simp add: distrib_right)
    moreover have "(real_of_int k + 1) * p = X + p" by (simp add: distrib_right X_def)
    ultimately show ?thesis unfolding qp by linarith
  qed
  have X0: "0 \<le> X" using k0 p by (simp add: X_def)
  have kX: "real_of_int k \<le> X"
  proof -
    have "real_of_int k * 1 \<le> real_of_int k * p" using k0 p by (intro mult_left_mono) simp_all
    then show ?thesis by (simp add: X_def)
  qed
  have jj: "j < 44" by (rule power_less_imp_less_exp [OF _ j]) simp
  define n where "n = (2 * k + 1) * 2 ^ (j + 6) - 1"
  define r :: real where "r = of_int n * 2 powi (- (int j + 7))"
  have n_real: "real_of_int n = 128 * X + 64 * p - 1"
    by (simp add: n_def X_def p_def power_add algebra_simps)
  have "real_of_int n < 2 ^ 53" "0 \<le> real_of_int n" using X0 X1 M p unfolding n_real by simp_all
  then have "n < 2 ^ 53" "0 \<le> n" by simp_all
  then have nb: "\<bar>n\<bar> < 2 ^ 53" by simp
  have s: "- 1074 \<le> - (int j + 7)" using jj by simp
  have tr: "to_double r = r"
    by (rule to_double_exact [OF r_def nb s])
  have pw: "(2::real) powi (- (int j + 7)) = 1 / (128 * p)"
  proof -
    have "(2::real) powi (- (int j + 7)) = inverse (2 powi (int j + 7))" by (rule power_int_minus)
    also have "(2::real) powi (int j + 7) = 2 ^ j * 2 ^ 7" by (simp add: power_int_add)
    finally show ?thesis by (simp add: p_def field_simps)
  qed
  have r_eq: "r * (128 * p) = 128 * X + 64 * p - 1"
  proof -
    have "r = (128 * X + 64 * p - 1) / (128 * p)" unfolding r_def pw n_real by simp
    then show ?thesis using p by simp
  qed
  define N where "N = 45 * 2 ^ j * (2 * k + 1) - 4 * m"
  have N_real: "real_of_int N = 90 * X + 45 * p - 4 * M"
    by (simp add: N_def X_def p_def M_def algebra_simps)
  have "0 < real_of_int N" using X2 unfolding N_real by linarith
  then have "1 \<le> N" by simp
  then have N1: "1 \<le> real_of_int N" by simp
  have q128: "q * (128 * p) = 256 * M / 45"
  proof -
    have "q * (128 * p) = 128 * (q * p)" by simp
    then show ?thesis unfolding qp by simp
  qed
  have "q * (128 * p) \<le> r * (128 * p)"
    using N1 unfolding r_eq N_real q128 by linarith
  then have qr: "q \<le> r" using p by simp
  have "(real_of_int k + 1 / 2) * (128 * p) = 128 * X + 64 * p"
    by (simp add: X_def algebra_simps)
  then have "r * (128 * p) < (real_of_int k + 1 / 2) * (128 * p)"
    unfolding r_eq by linarith
  then have rk: "r < real_of_int k + 1 / 2" using p by simp
  have "real_of_int (2 * k - 1) < 2 ^ 53" using kX X1 M p by simp
  then have "2 * k - 1 < 2 ^ 53" by simp
  then have "\<bar>2 * k - 1\<bar> < 2 ^ 53" using k0 by simp
  then have lo: "to_double (of_int (2 * k - 1) / 2) = of_int (2 * k - 1) / 2"
    by (rule to_double_quarters(2))
  have lq: "of_int (2 * k - 1) / 2 \<le> q" using k(1) by simp
  have "of_int (2 * k - 1) / 2 \<le> to_double q" "to_double q \<le> r"
    using to_double_between [OF lq qr lo tr] by simp_all
  then have "Math_round (to_double q) = k"
    using rk by (intro Math_round_between) simp_all
  then show "Math_round (to_double (of_int m / 2 ^ j / 22.5)) = Math_round (of_int m / 2 ^ j / 22.5)"
    by (simp add: k_def q_def M_def p_def)
  show "0 \<le> Math_round (of_int m / 2 ^ j / 22.5)"
    using k0 by (simp add: k_def q_def M_def p_def)
qed

lemma js_rem_nonneg: "0 \<le> a \<Longrightarrow> js_rem a 16 = a mod 16"
  by (simp add: js_rem_def sgn_if)

lemma compass_grid:
  assumes m0: "0 \<le> m" and b: "of_int m + 360 * 2 ^ j < (2::real) ^ 44" and d: "d = of_int m / 2 ^ j"
  shows "js_add d 360 = d + 360"
    and "compass_index d = Math_round (d / 22.5) mod 16"
    and "compass_index (js_add d 360) = compass_index d"
proof -
  define m' where "m' = m + 360 * 2 ^ j"
  have m'_real: "real_of_int m' = of_int m + 360 * 2 ^ j" by (simp add: m'_def)
  have p1: "(1::real) \<le> 2 ^ j" by simp
  have mr: "0 \<le> real_of_int m" using m0 by simp
  have "real_of_int m < 2 ^ 44" "(2::real) ^ j < 2 ^ 44" "real_of_int m' < 2 ^ 44"
    using mr b p1 unfolding m'_real by linarith+
  then have m: "m < 2 ^ 44" and j: "(2::real) ^ j < 2 ^ 44" and m': "m' < 2 ^ 44" by simp_all
  have m'0: "0 \<le> m'" using m0 by (simp add: m'_def)
  have jj: "j < 44" by (rule power_less_imp_less_exp [OF _ j]) simp
  have pw: "(2::real) powi (- int j) = 1 / 2 ^ j"
    by (simp add: power_int_minus divide_inverse)
  have s: "- 1074 \<le> - int j" using jj by simp
  have d_exact: "d = of_int m * 2 powi (- int j)" unfolding pw d by simp
  have td: "to_double d = d"
    by (rule to_double_exact [OF d_exact _ s]) (use m m0 in simp)
  have d360: "d + 360 = of_int m' / 2 ^ j" unfolding m'_real d by (simp add: field_simps)
  have d360_exact: "d + 360 = of_int m' * 2 powi (- int j)" unfolding pw d360 by simp
  have td360: "to_double (d + 360) = d + 360"
    by (rule to_double_exact [OF d360_exact _ s]) (use m' m'0 in simp)
  show a: "js_add d 360 = d + 360" by (simp add: js_add_360 td td360)
  have k: "Math_round (js_div d 22.5) = Math_round (d / 22.5)"
    unfolding js_div_22_5 td unfolding d by (rule Math_round_quotient(1) [OF m0 m j])
  have k0: "0 \<le> Math_round (d / 22.5)"
    unfolding d by (rule Math_round_quotient(2) [OF m0 m j])
  show c: "compass_index d = Math_round (d / 22.5) mod 16"
    unfolding compass_index_def k by (rule js_rem_nonneg [OF k0])
  have "Math_round (js_div (d + 360) 22.5) = Math_round ((d + 360) / 22.5)"
    unfolding js_div_22_5 td360 unfolding d360 by (rule Math_round_quotient(1) [OF m'0 m' j])
  also have "(d + 360) / 22.5 = d / 22.5 + of_int 16" by (simp add: field_simps)
  also have "Math_round (d / 22.5 + of_int 16) = Math_round (d / 22.5) + 16"
    by (rule Math_round_add_int)
  finally have k2: "Math_round (js_div (d + 360) 22.5) = Math_round (d / 22.5) + 16" .
  have "compass_index (d + 360) = js_rem (Math_round (d / 22.5) + 16) 16"
    by (simp only: compass_index_def k2)
  also have "\<dots> = (Math_round (d / 22.5) + 16) mod 16"
    by (rule js_rem_nonneg) (use k0 in simp)
  also have "\<dots> = Math_round (d / 22.5) mod 16" by simp
  finally show "compass_index (js_add d 360) = compass_index d" unfolding a c .
qed

lemma compass_index_0: "compass_index 0 = 0"
  by code_simp

lemma compass_45_negative: "formatWindDirection (- 45) = None"
  by code_simp

lemma compass_45_negative_plus_360: "formatWindDirection (js_add (- 45) 360) = Some ''NW''"
  by code_simp

lemma compass_near_boundary: "formatWindDirection 11.249999999999998 = Some ''N''"
  by code_simp

lemma compass_near_boundary_plus_360:
  "formatWindDirection (js_add 11.249999999999998 360) = Some ''NNE''"
  by code_simp

text \<open>
  C5, as the specification states it: the compass label of \<open>d\<close> and of \<open>d + 360\<close> agree for
  every \<open>d\<close>.  At \<open>d = -45\<close> the rounded quotient is \<open>-2\<close>, the remainder of JavaScript keeps the
  sign, the read at index \<open>-2\<close> is undefined, and \<open>315\<close> degrees is north-west.  At the double
  nearest \<open>11.249999999999998\<close> the quotient rounds down to the label N, while the sum with
  \<open>360\<close> is rounded to \<open>371.25\<close>, which is on the boundary and gets the label NNE.
\<close>

theorem compass_periodicity_counterexample:
  "formatWindDirection (- 45) = None \<and> formatWindDirection (js_add (- 45) 360) = Some ''NW''
   \<and> formatWindDirection (- 45) \<noteq> formatWindDirection (js_add (- 45) 360)
   \<and> formatWindDirection 11.249999999999998 = Some ''N''
   \<and> formatWindDirection (js_add 11.249999999999998 360) = Some ''NNE''"
  by (simp only: compass_45_negative compass_45_negative_plus_360 compass_near_boundary
      compass_near_boundary_plus_360) simp

text \<open>
  C5, amended.  The label of \<open>0\<close> is N.  The label is the entry of the 16-element list, which
  starts at N, at the index \<^verbatim>\<open>Math.round(d / 22.5) % 16\<close>, with the quotient of doubles and the
  remainder that keeps the sign, and undefined for a negative index.  For every \<open>d\<close> from
  \<open>-11.25\<close> up to \<open>0\<close> the labels of \<open>d\<close> and of \<open>d + 360\<close> are both N.  For every \<open>d \<ge> 0\<close> that is a
  multiple of \<open>2^-j\<close> with \<open>(d + 360) * 2^j < 2^44\<close> (every whole, half or quarter number of
  degrees in that range, for instance), the sum \<open>d + 360\<close> is exact, the label of \<open>d + 360\<close> is
  the label of \<open>d\<close>, and the index is \<open>round (d / 22.5) mod 16\<close> in exact arithmetic.
\<close>

theorem compass_periodic_doubles:
  "formatWindDirection 0 = Some ''N''
   \<and> length directions = 16 \<and> directions ! 0 = ''N''
   \<and> formatWindDirection d = array_get directions (js_rem (Math_round (js_div d 22.5)) 16)
   \<and> (- 11.25 \<le> d \<and> d < 0 \<longrightarrow>
        formatWindDirection d = Some ''N'' \<and> formatWindDirection (js_add d 360) = Some ''N'')
   \<and> (0 \<le> m \<and> of_int m + 360 * 2 ^ j < (2::real) ^ 44 \<and> d = of_int m / 2 ^ j \<longrightarrow>
        js_add d 360 = d + 360
        \<and> formatWindDirection (js_add d 360) = formatWindDirection d
        \<and> formatWindDirection d = Some (directions ! nat (Math_round (d / 22.5) mod 16)))"
proof -
  have n: "array_get directions 0 = Some ''N''" by (simp add: array_get_def directions_def)
  have a: "formatWindDirection 0 = Some ''N''"
    by (simp add: formatWindDirection_def compass_index_0 n)
  have b: "length directions = 16 \<and> directions ! 0 = ''N''" by (simp add: directions_def)
  have c: "formatWindDirection d = array_get directions (js_rem (Math_round (js_div d 22.5)) 16)"
    by (simp only: formatWindDirection_def compass_index_def)
  have e: "formatWindDirection d = Some ''N'' \<and> formatWindDirection (js_add d 360) = Some ''N''"
    if "- 11.25 \<le> d \<and> d < 0"
    using compass_index_just_below_zero [of d] that by (simp add: formatWindDirection_def n)
  have f: "js_add d 360 = d + 360
        \<and> formatWindDirection (js_add d 360) = formatWindDirection d
        \<and> formatWindDirection d = Some (directions ! nat (Math_round (d / 22.5) mod 16))"
    if h: "0 \<le> m \<and> of_int m + 360 * 2 ^ j < (2::real) ^ 44 \<and> d = of_int m / 2 ^ j"
  proof -
    note g = compass_grid [of m j d, OF conjunct1 [OF h] conjunct1 [OF conjunct2 [OF h]]
        conjunct2 [OF conjunct2 [OF h]]]
    have r: "0 \<le> Math_round (d / 22.5) mod 16" "Math_round (d / 22.5) mod 16 < 16" by simp_all
    have "formatWindDirection d = Some (directions ! nat (Math_round (d / 22.5) mod 16))"
      unfolding formatWindDirection_def g(2) by (rule directions_lookup(1) [OF r])
    moreover have "formatWindDirection (js_add d 360) = formatWindDirection d"
      by (simp only: formatWindDirection_def g(3))
    ultimately show ?thesis using g(1) by simp
  qed
  show ?thesis using a b c e f by blast
qed

theorem compass_periodic_doubles_witness:
  "formatWindDirection (js_add 90 360) = formatWindDirection 90
   \<and> formatWindDirection 90 = Some ''E''
   \<and> formatWindDirection (- 5) = Some ''N''
   \<and> formatWindDirection (js_add (- 5) 360) = Some ''N''"
proof -
  have "(0::int) \<le> 90 \<and> of_int 90 + 360 * 2 ^ 0 < (2::real) ^ 44 \<and> (90::real) = of_int 90 / 2 ^ 0"
    by simp
  then have "formatWindDirection (js_add 90 360) = formatWindDirection 90
      \<and> formatWindDirection 90 = Some (directions ! nat (Math_round (90 / 22.5) mod 16))"
    using compass_periodic_doubles [of 90 90 0] by blast
  moreover have "directions ! nat (Math_round (90 / 22.5) mod 16) = ''E''"
    by (simp add: Math_round_def directions_def)
  moreover have "- 11.25 \<le> (- 5::real) \<and> (- 5::real) < 0" by simp
  then have "formatWindDirection (- 5) = Some ''N'' \<and> formatWindDirection (js_add (- 5) 360) = Some ''N''"
    using compass_periodic_doubles [of "- 5" 0 0] by blast
  ultimately show ?thesis by simp
qed

text \<open>
  C10.  For every degrees value \<open>d \<ge> 0\<close> the index \<open>round (d / 22.5) % 16\<close> lies in
  \<open>0 .. 15\<close>, so the read of the 16-element list is in bounds and the result is one of the
  16 labels, never undefined.
\<close>

theorem compass_index_in_bounds:
  assumes "0 \<le> d"
  shows "0 \<le> compass_index d \<and> compass_index d < int (length directions)
    \<and> formatWindDirection d = Some (directions ! nat (compass_index d))
    \<and> directions ! nat (compass_index d) \<in> set directions
    \<and> formatWindDirection d \<noteq> None"
proof -
  have r: "0 \<le> compass_index d" "compass_index d < 16"
    using compass_index_range [OF assms] by simp_all
  have l: "length directions = 16" by (simp add: directions_def)
  show ?thesis
    using r directions_lookup [OF r] by (simp add: formatWindDirection_def l)
qed

lemma compass_index_359: "compass_index 359 = 0"
  by code_simp

theorem compass_index_in_bounds_witness:
  "(0::real) \<le> 359 \<and> compass_index 359 = 0 \<and> formatWindDirection 359 = Some ''N''"
  using compass_index_in_bounds [of 359]
  by (simp add: compass_index_359 directions_def)



section \<open>Properties of the handlers\<close>

lemma getCacheEntry_hit:
  assumes "namespace ns c k = Some e" and "now - timestamp e < cacheTime"
  shows "getCacheEntry ns k now c = Some e"
  using assms by (simp add: getCacheEntry_def)

lemma getCacheEntry_Some:
  assumes "getCacheEntry ns k now c = Some e"
  shows "namespace ns c k = Some e"
  using assms by (auto simp: getCacheEntry_def split: option.splits if_splits)

lemma handleGetWeather_success:
  assumes "handleGetWeather rt up clk city c = (Inr t, c', ev)"
  shows "\<exists>e. current c' (toLowerCase rt city) = Some e \<and> text' e = t
    \<and> (current c (toLowerCase rt city) = Some e \<or> timestamp e = now_write clk)"
proof (cases "getCacheEntry Current (toLowerCase rt city) (now_read clk) c")
  case (Some e)
  then have "current c (toLowerCase rt city) = Some e"
    using getCacheEntry_Some [of Current] by simp
  then show ?thesis using assms Some by (simp add: handleGetWeather_def Let_def)
next
  case None
  then show ?thesis using assms
    by (auto simp: handleGetWeather_def Let_def split: sum.splits)
qed

lemma handleGetWeather_hit:
  assumes "current c (toLowerCase rt city) = Some e" and "now_read clk - timestamp e < cacheTime"
  shows "handleGetWeather rt up clk city c = (Inr (text' e), c, [CacheRead Current (toLowerCase rt city)])"
proof -
  have "getCacheEntry Current (toLowerCase rt city) (now_read clk) c = Some e"
    using assms by (intro getCacheEntry_hit) simp_all
  then show ?thesis by (simp add: handleGetWeather_def Let_def)
qed

lemma get_weather_try_success:
  assumes "get_weather_try rt up clk city c = (Inr t, c', ev)"
  shows "\<exists>e. current c' (toLowerCase rt city) = Some e \<and> text' e = t
    \<and> (current c (toLowerCase rt city) = Some e \<or> timestamp e = now_read clk)"
proof (cases "getCacheEntry Current (toLowerCase rt city) (now_read clk) c")
  case (Some e)
  then have "current c (toLowerCase rt city) = Some e"
    using getCacheEntry_Some [of Current] by simp
  then show ?thesis using assms Some by (simp add: get_weather_try_def Let_def)
next
  case None
  then show ?thesis using assms
    by (auto simp: get_weather_try_def Let_def split: sum.splits)
qed

lemma get_weather_try_hit:
  assumes "current c (toLowerCase rt city) = Some e" and "now_read clk - timestamp e < cacheTime"
  shows "get_weather_try rt up clk city c = (Inr (text' e), c, [CacheRead Current (toLowerCase rt city)])"
proof -
  have "getCacheEntry Current (toLowerCase rt city) (now_read clk) c = Some e"
    using assms by (intro getCacheEntry_hit) simp_all
  then show ?thesis by (simp add: get_weather_try_def Let_def)
qed

text \<open>
  C2.  Let a call of get_weather for \<open>city\<close> succeed, leaving the cache \<open>c1\<close>.  Then \<open>c1\<close>
  holds an entry for the lower-cased city whose text is the text returned (an entry that was
  already there, or one written by this call), and every later call for the same city on \<open>c1\<close>
  that reads the clock less than 30 minutes after the timestamp of that entry returns the
  same text, leaves the cache as it is, and does nothing but read the cache: no geocoding and
  no weather fetch, whatever the upstream services would answer.  This holds for the handler
  of weatherTools, alone and registered through the wrapper, and for the tool of the
  single-file server.
\<close>

theorem get_weather_cache_hit:
  "(handleGetWeather rt up clk1 city c0 = (Inr t1, c1, ev1) \<longrightarrow>
      (\<exists>e. current c1 (toLowerCase rt city) = Some e \<and> text' e = t1 \<and>
        (current c0 (toLowerCase rt city) = Some e \<or> timestamp e = now_write clk1) \<and>
        (\<forall>up2 clk2. now_read clk2 - timestamp e < cacheTime \<longrightarrow>
           handleGetWeather rt up2 clk2 city c1
             = (Inr t1, c1, [CacheRead Current (toLowerCase rt city)]) \<and>
           registerTool (handleGetWeather rt up2 clk2 city) c1
             = (t1, c1, [CacheRead Current (toLowerCase rt city)]))))
   \<and> (get_weather_try rt up clk1 city c0 = (Inr t1, c1, ev1) \<longrightarrow>
      (\<exists>e. current c1 (toLowerCase rt city) = Some e \<and> text' e = t1 \<and>
        (current c0 (toLowerCase rt city) = Some e \<or> timestamp e = now_read clk1) \<and>
        (\<forall>up2 clk2. now_read clk2 - timestamp e < cacheTime \<longrightarrow>
           get_weather_tool rt up2 clk2 city c1
             = (t1, c1, [CacheRead Current (toLowerCase rt city)]))))"
proof (intro conjI impI)
  assume a: "handleGetWeather rt up clk1 city c0 = (Inr t1, c1, ev1)"
  from handleGetWeather_success [OF a]
  obtain e where e: "current c1 (toLowerCase rt city) = Some e" "text' e = t1"
    "current c0 (toLowerCase rt city) = Some e \<or> timestamp e = now_write clk1" by blast
  have "handleGetWeather rt up2 clk2 city c1 = (Inr t1, c1, [CacheRead Current (toLowerCase rt city)])"
    if "now_read clk2 - timestamp e < cacheTime" for up2 clk2
    using handleGetWeather_hit [OF e(1) that] e(2) by simp
  then show "\<exists>e. current c1 (toLowerCase rt city) = Some e \<and> text' e = t1 \<and>
        (current c0 (toLowerCase rt city) = Some e \<or> timestamp e = now_write clk1) \<and>
        (\<forall>up2 clk2. now_read clk2 - timestamp e < cacheTime \<longrightarrow>
           handleGetWeather rt up2 clk2 city c1
             = (Inr t1, c1, [CacheRead Current (toLowerCase rt city)]) \<and>
           registerTool (handleGetWeather rt up2 clk2 city) c1
             = (t1, c1, [CacheRead Current (toLowerCase rt city)]))"
    using e by (auto simp: registerTool_def formatToolResponse_def)
next
  assume a: "get_weather_try rt up clk1 city c0 = (Inr t1, c1, ev1)"
  from get_weather_try_success [OF a]
  obtain e where e: "current c1 (toLowerCase rt city) = Some e" "text' e = t1"
    "current c0 (toLowerCase rt city) = Some e \<or> timestamp e = now_read clk1" by blast
  have "get_weather_tool rt up2 clk2 city c1 = (t1, c1, [CacheRead Current (toLowerCase rt city)])"
    if "now_read clk2 - timestamp e < cacheTime" for up2 clk2
    using get_weather_try_hit [OF e(1) that] e(2) by (simp add: get_weather_tool_def)
  then show "\<exists>e. current c1 (toLowerCase rt city) = Some e \<and> text' e = t1 \<and>
        (current c0 (toLowerCase rt city) = Some e \<or> timestamp e = now_read clk1) \<and>
        (\<forall>up2 clk2. now_read clk2 - timestamp e < cacheTime \<longrightarrow>
           get_weather_tool rt up2 clk2 city c1
             = (t1, c1, [CacheRead Current (toLowerCase rt city)]))"
    using e by auto
qed


lemma sample_lower_London: "toLowerCase sample_runtime ''London'' = ''london''"
  by code_simp

lemma sample_geocoding_London: "getCoordinates sample_upstream ''London'' = Inr london"
  by (simp add: getCoordinates_def sample_upstream_def)

lemma sample_first_call:
  "handleGetWeather sample_runtime sample_upstream sample_clock ''London'' empty_cache =
     (Inr (current_report sample_runtime 1001 (sample_weather 10 16) (named_label london) ''  ''),
      setCacheEntry Current ''london''
        (current_report sample_runtime 1001 (sample_weather 10 16) (named_label london) ''  '')
        1002 empty_cache,
      [CacheRead Current ''london'', Geocode ''London'', FetchCurrent 51 0,
       CacheWrite Current ''london''])"
proof -
  have "getCacheEntry Current ''london'' 1000 empty_cache = None"
    by (simp add: getCacheEntry_def empty_cache_def)
  moreover have "getCurrentWeather sample_upstream lat lon = Inr (sample_weather 10 16)" for lat lon
    by (simp add: getCurrentWeather_def sample_upstream_def)
  moreover have "latitude london = 51" "longitude london = 0"
    by (simp_all add: london_def)
  ultimately show ?thesis
    by (simp add: handleGetWeather_def Let_def sample_lower_London sample_geocoding_London
        sample_clock_def)
qed

theorem get_weather_cache_hit_witness:
  "\<exists>t1 c1 ev1.
     handleGetWeather sample_runtime sample_upstream sample_clock ''London'' empty_cache
       = (Inr t1, c1, ev1)
     \<and> handleGetWeather sample_runtime sample_upstream
         \<lparr>now_read = 1801001, now_render = 1801002, now_write = 1801003\<rparr> ''London'' c1
       = (Inr t1, c1, [CacheRead Current ''london''])"
proof -
  let ?t = "current_report sample_runtime 1001 (sample_weather 10 16) (named_label london) ''  ''"
  let ?c = "setCacheEntry Current ''london'' ?t 1002 empty_cache"
  let ?clk = "\<lparr>now_read = 1801001, now_render = 1801002, now_write = 1801003\<rparr>"
  note inst = get_weather_cache_hit [of sample_runtime sample_upstream sample_clock "''London''"
      empty_cache ?t ?c "[CacheRead Current ''london'', Geocode ''London'', FetchCurrent 51 0,
       CacheWrite Current ''london'']"]
  from inst sample_first_call
  obtain e where e: "current ?c ''london'' = Some e"
    and hit: "\<And>up2 clk2. now_read clk2 - timestamp e < cacheTime \<Longrightarrow>
      handleGetWeather sample_runtime up2 clk2 ''London'' ?c = (Inr ?t, ?c, [CacheRead Current ''london''])"
    by (auto simp: sample_lower_London)
  have "timestamp e = 1002" using e by auto
  then have "now_read ?clk - timestamp e < cacheTime" by (simp add: cacheTime_def)
  from hit [OF this] sample_first_call show ?thesis by blast
qed


lemma getCoordinates_not_found:
  assumes "geocoding up city = Inr None \<or> geocoding up city = Inr (Some [])"
  shows "getCoordinates up city = Inl (Error (''City not found: '' @ city))"
  using assms by (auto simp: getCoordinates_def)

text \<open>
  C3, amended: when the cache has no valid entry for the city and geocoding returns no
  result, get_weather raises nothing and returns a text that ends with the queried city
  name: \<open>Error retrieving weather: City not found: <city>\<close> from the single-file server, and
  \<open>Error: City not found: <city>\<close> from the tool registered through the wrapper.  The cache is
  unchanged and no weather fetch is made.
\<close>

theorem not_found_is_text:
  assumes "getCacheEntry Current (toLowerCase rt city) (now_read clk) c = None"
    and "geocoding up city = Inr None \<or> geocoding up city = Inr (Some [])"
  shows "get_weather_tool rt up clk city c
           = (''Error retrieving weather: '' @ ''City not found: '' @ city, c,
              [CacheRead Current (toLowerCase rt city), Geocode city])
       \<and> registerTool (handleGetWeather rt up clk city) c
           = (''Error: '' @ ''City not found: '' @ city, c,
              [CacheRead Current (toLowerCase rt city), Geocode city])"
  using assms(1) getCoordinates_not_found [OF assms(2)]
  by (simp add: get_weather_tool_def get_weather_try_def registerTool_def handleGetWeather_def
      formatToolError_def Let_def)

lemma sample_lower_Nowhereland: "toLowerCase sample_runtime ''Nowhereland'' = ''nowhereland''"
  by code_simp

theorem not_found_is_text_witness:
  "get_weather_tool sample_runtime sample_upstream sample_clock ''Nowhereland'' empty_cache
     = (''Error retrieving weather: City not found: Nowhereland'', empty_cache,
        [CacheRead Current ''nowhereland'', Geocode ''Nowhereland''])"
proof -
  have "getCacheEntry Current ''nowhereland'' 1000 empty_cache = None"
    by (simp add: getCacheEntry_def empty_cache_def)
  moreover have "geocoding sample_upstream ''Nowhereland'' = Inr None"
    by (simp add: sample_upstream_def)
  ultimately show ?thesis
    using not_found_is_text [of sample_runtime "''Nowhereland''" sample_clock empty_cache sample_upstream]
    by (simp add: sample_lower_Nowhereland sample_clock_def)
qed

text \<open>
  C3, as the specification states it: when geocoding finds nothing, the text returned by
  get_weather begins with \<open>Error retrieving weather:\<close>.  The tool registered through the
  wrapper answers \<open>Error: City not found: Nowhereland\<close>, which does not begin so.
\<close>

theorem not_found_prefix_counterexample:
  "fst (registerTool (handleGetWeather sample_runtime sample_upstream sample_clock ''Nowhereland'')
         empty_cache) = ''Error: City not found: Nowhereland''
   \<and> \<not> prefix ''Error retrieving weather:''
         (fst (registerTool (handleGetWeather sample_runtime sample_upstream sample_clock ''Nowhereland'')
            empty_cache))"
proof -
  have "getCacheEntry Current ''nowhereland'' 1000 empty_cache = None"
    by (simp add: getCacheEntry_def empty_cache_def)
  moreover have "getCoordinates sample_upstream ''Nowhereland'' = Inl (Error ''City not found: Nowhereland'')"
    by (simp add: getCoordinates_def sample_upstream_def)
  ultimately have "registerTool (handleGetWeather sample_runtime sample_upstream sample_clock ''Nowhereland'')
         empty_cache = (''Error: City not found: Nowhereland'', empty_cache,
        [CacheRead Current ''nowhereland'', Geocode ''Nowhereland''])"
    by (simp add: registerTool_def handleGetWeather_def formatToolError_def Let_def
        sample_lower_Nowhereland sample_clock_def)
  then show ?thesis by simp
qed

text \<open>
  C8.  A lookup by coordinates returns the cache exactly as it received it, and the events of
  the call are the one weather fetch for the given coordinates: no read of the cache, no
  write to it, no geocoding.  This holds for the handler of weatherTools, alone and
  registered through the wrapper, and for the tool of the single-file server.
\<close>

theorem coordinates_bypass_cache:
  "snd (handleGetWeatherByCoordinates rt up clk lat lon c) = (c, [FetchCurrent lat lon])
   \<and> snd (registerTool (handleGetWeatherByCoordinates rt up clk lat lon) c) = (c, [FetchCurrent lat lon])
   \<and> snd (get_weather_by_coordinates_tool rt up clk lat lon c) = (c, [FetchCurrent lat lon])"
proof -
  have h: "snd (handleGetWeatherByCoordinates rt up clk lat lon c) = (c, [FetchCurrent lat lon])"
    by (simp add: handleGetWeatherByCoordinates_def Let_def split: sum.splits)
  have "snd (registerTool (handleGetWeatherByCoordinates rt up clk lat lon) c)
      = snd (handleGetWeatherByCoordinates rt up clk lat lon c)"
    by (simp add: registerTool_def split: prod.splits sum.splits)
  moreover have "snd (get_weather_by_coordinates_tool rt up clk lat lon c) = (c, [FetchCurrent lat lon])"
    by (simp add: get_weather_by_coordinates_tool_def split: sum.splits)
  ultimately show ?thesis using h by simp
qed

section \<open>Properties of the reports\<close>

lemma forecast_loop_concat:
  "forecast_loop rt fc i acc = acc @ concat (map (forecast_day rt fc) [i..<length (time fc)])"
proof (induction rt fc i acc rule: forecast_loop.induct)
  case (1 rt fc i acc)
  show ?case
  proof (cases "i < length (time fc)")
    case True
    then show ?thesis
      using 1 by (simp add: forecast_loop.simps [of rt fc i] upt_conv_Cons)
  next
    case False
    then show ?thesis by (simp add: forecast_loop.simps [of rt fc i])
  qed
qed

lemma js_gt_times_exceeds:
  assumes "\<not> double_overflow (to_double s * to_double c)" and "js_gt_times g s c"
  shows "to_double g > to_double s * to_double c"
proof (rule ccontr)
  assume "\<not> to_double g > to_double s * to_double c"
  then have "to_double g \<le> to_double s * to_double c" by simp
  then have "to_double (to_double g) \<le> to_double (to_double s * to_double c)"
    by (rule to_double_mono)
  then have "to_double g \<le> to_double (to_double s * to_double c)"
    by (simp only: to_double_idem)
  then show False using assms by (simp add: js_gt_times_def Let_def)
qed

lemma js_gt_times_small:
  assumes "\<bar>to_double s * to_double c\<bar> \<le> 1000"
  shows "js_gt_times g s c = (to_double (to_double s * to_double c) < to_double g)"
proof -
  have "\<not> double_overflow (to_double s * to_double c)"
    using assms by (simp add: double_overflow_def)
  then show ?thesis by (simp add: js_gt_times_def Let_def)
qed

lemma gusts_16_over_10: "js_gt_times 16 10 1.5"
proof -
  have "\<bar>to_double 10 * to_double 1.5\<bar> \<le> 1000" by code_simp
  moreover have "to_double (to_double 10 * to_double 1.5) < to_double 16" by code_simp
  ultimately show ?thesis by (simp only: js_gt_times_small simp_thms)
qed

lemma gusts_14_over_10: "\<not> js_gt_times 14 10 1.5"
proof -
  have "\<bar>to_double 10 * to_double 1.5\<bar> \<le> 1000" by code_simp
  moreover have "\<not> to_double (to_double 10 * to_double 1.5) < to_double 14" by code_simp
  ultimately show ?thesis by (simp only: js_gt_times_small simp_thms)
qed

lemma gusts_15_over_10: "\<not> js_gt_times 15 10 1.5"
proof -
  have "\<bar>to_double 10 * to_double 1.5\<bar> \<le> 1000" by code_simp
  moreover have "\<not> to_double (to_double 10 * to_double 1.5) < to_double 15" by code_simp
  ultimately show ?thesis by (simp only: js_gt_times_small simp_thms)
qed

lemma daily_gusts_14_over_10: "js_gt_times 14 10 1.3"
proof -
  have "\<bar>to_double 10 * to_double 1.3\<bar> \<le> 1000" by code_simp
  moreover have "to_double (to_double 10 * to_double 1.3) < to_double 14" by code_simp
  ultimately show ?thesis by (simp only: js_gt_times_small simp_thms)
qed

lemma daily_gusts_13_over_10: "\<not> js_gt_times 13 10 1.3"
proof -
  have "\<bar>to_double 10 * to_double 1.3\<bar> \<le> 1000" by code_simp
  moreover have "\<not> to_double (to_double 10 * to_double 1.3) < to_double 13" by code_simp
  ultimately show ?thesis by (simp only: js_gt_times_small simp_thms)
qed

lemma gusts_14_4_over_9_6: "js_gt_times 14.4 9.6 1.5"
proof -
  have "\<bar>to_double 9.6 * to_double 1.5\<bar> \<le> 1000" by code_simp
  moreover have "to_double (to_double 9.6 * to_double 1.5) < to_double 14.4" by code_simp
  ultimately show ?thesis by (simp only: js_gt_times_small simp_thms)
qed

lemma gusts_10_8_over_7_2: "\<not> js_gt_times (to_double 10.8) (to_double 7.2) 1.5"
proof -
  have "\<bar>to_double (to_double 7.2) * to_double 1.5\<bar> \<le> 1000" by code_simp
  moreover have "\<not> to_double (to_double (to_double 7.2) * to_double 1.5) < to_double (to_double 10.8)"
    by code_simp
  ultimately show ?thesis by (simp only: js_gt_times_small simp_thms)
qed

lemma doubles_10_8_over_7_2: "to_double 10.8 > 1.5 * to_double 7.2" by code_simp

lemma double_1_5: "to_double 1.5 = 1.5" by code_simp

lemma double_1_3: "to_double 1.3 = 5854679515581645 / 4503599627370496" by code_simp

text \<open>
  C6, as the specification states it: the gust clause is there if and only if the gusts are
  strictly greater than 1.5 times the wind speed.  With a speed of 9.6 and gusts of 14.4 in
  the response body the gusts are exactly 1.5 times the speed, and the report has the clause:
  the product of the doubles is rounded to a double below the double of 14.4.  With the
  doubles of 7.2 and 10.8 the gusts are greater than 1.5 times the speed, and the report has
  no clause: the product is rounded up to the double of 10.8.
\<close>

theorem gust_threshold_counterexample:
  "current_gust_note sample_runtime (sample_weather 9.6 14.4) \<noteq> []
   \<and> \<not> (14.4::real) > 1.5 * 9.6
   \<and> current_gust_note sample_runtime (sample_weather (to_double 7.2) (to_double 10.8)) = []
   \<and> to_double 10.8 > 1.5 * to_double 7.2"
  using gusts_14_4_over_9_6 gusts_10_8_over_7_2 doubles_10_8_over_7_2
  by (simp add: current_gust_note_def sample_weather_def)

text \<open>
  C6, amended.  Every current-conditions report is its head (which ends with the wind
  direction), then the gust clause, then its tail; the clause is \<open>with gusts up to ... km/h\<close>
  when the gusts are strictly greater than the product of the wind speed and 1.5 as
  JavaScript computes it, the exact product of the two doubles rounded to the nearest
  double, and empty otherwise.  The forecast report is its title, one section per entry of
  \<open>time\<close>, and the stamp; the section of a day that has a maximal speed and maximal gusts is
  its head, then the gust clause, then two line breaks, and there the clause is present when
  the day's maximal gusts are strictly greater than the rounded product of its maximal wind
  speed and the double nearest 1.3, and empty otherwise.  When the clause is present the
  gusts are strictly greater than the exact product of the doubles; and when that product
  is itself a double, the clause is present exactly when they are.
\<close>

theorem gust_thresholds_rounded:
  "current_report rt t w label indent
     = current_report_head rt w label
       @ (if js_gt_times (wind_gusts_10m w) (wind_speed_10m w) 1.5
          then '' with gusts up to '' @ Number_toString rt (wind_gusts_10m w) @ '' km/h'' else [])
       @ current_report_tail rt t w indent
   \<and> (current_report rt t w label indent
        = current_report_head rt w label @ current_report_tail rt t w indent)
     = (\<not> js_gt_times (wind_gusts_10m w) (wind_speed_10m w) 1.5)
   \<and> formatCurrentWeather rt t w (Some loc) = Inr (current_report rt t w (named_label loc) ''  '')
   \<and> formatForecast rt t fc loc days
     = ''# '' @ Number_toString rt days @ ''-Day Weather Forecast for '' @ named_label loc @ nl @ nl
       @ concat (map (forecast_day rt fc) [0..<length (time fc)])
       @ ''*Updated: '' @ toLocaleString rt t @ ''*''
   \<and> (i < length (wind_speed_10m_max fc) \<and> i < length (wind_gusts_10m_max fc) \<longrightarrow>
       forecast_day rt fc i
         = forecast_day_head rt fc i
           @ (if js_gt_times (wind_gusts_10m_max fc ! i) (wind_speed_10m_max fc ! i) 1.3
              then '' with gusts up to '' @ Number_toString rt (wind_gusts_10m_max fc ! i) @ '' km/h''
              else [])
           @ nl @ nl
       \<and> (forecast_day rt fc i = forecast_day_head rt fc i @ nl @ nl)
         = (\<not> js_gt_times (wind_gusts_10m_max fc ! i) (wind_speed_10m_max fc ! i) 1.3))
   \<and> js_gt_times g s c
     = (if double_overflow (to_double s * to_double c) then to_double s * to_double c < 0
        else to_double g > to_double (to_double s * to_double c))
   \<and> to_double 1.5 = 1.5 \<and> to_double 1.3 = 5854679515581645 / 4503599627370496
   \<and> (\<not> double_overflow (to_double s * to_double c) \<and> js_gt_times g s c \<longrightarrow>
        to_double g > to_double s * to_double c)
   \<and> (\<not> double_overflow (to_double s * to_double c)
        \<and> to_double (to_double s * to_double c) = to_double s * to_double c \<longrightarrow>
        js_gt_times g s c = (to_double g > to_double s * to_double c))"
proof -
  have a: "current_report rt t w label indent
     = current_report_head rt w label
       @ (if js_gt_times (wind_gusts_10m w) (wind_speed_10m w) 1.5
          then '' with gusts up to '' @ Number_toString rt (wind_gusts_10m w) @ '' km/h'' else [])
       @ current_report_tail rt t w indent"
    by (simp add: current_report_def current_gust_note_def)
  have b: "(current_report rt t w label indent
        = current_report_head rt w label @ current_report_tail rt t w indent)
     = (\<not> js_gt_times (wind_gusts_10m w) (wind_speed_10m w) 1.5)"
    by (simp add: current_report_def current_gust_note_def)
  have c: "formatCurrentWeather rt t w (Some loc) = Inr (current_report rt t w (named_label loc) ''  '')"
    by simp
  have d: "formatForecast rt t fc loc days
     = ''# '' @ Number_toString rt days @ ''-Day Weather Forecast for '' @ named_label loc @ nl @ nl
       @ concat (map (forecast_day rt fc) [0..<length (time fc)])
       @ ''*Updated: '' @ toLocaleString rt t @ ''*''"
    by (simp add: formatForecast_def forecast_loop_concat)
  have e: "forecast_day rt fc i
         = forecast_day_head rt fc i
           @ (if js_gt_times (wind_gusts_10m_max fc ! i) (wind_speed_10m_max fc ! i) 1.3
              then '' with gusts up to '' @ Number_toString rt (wind_gusts_10m_max fc ! i) @ '' km/h''
              else [])
           @ nl @ nl
       \<and> (forecast_day rt fc i = forecast_day_head rt fc i @ nl @ nl)
         = (\<not> js_gt_times (wind_gusts_10m_max fc ! i) (wind_speed_10m_max fc ! i) 1.3)"
    if "i < length (wind_speed_10m_max fc) \<and> i < length (wind_gusts_10m_max fc)"
    using that by (simp add: forecast_day_def forecast_gust_note_def array_get_def)
  have f: "js_gt_times g s c
     = (if double_overflow (to_double s * to_double c) then to_double s * to_double c < 0
        else to_double g > to_double (to_double s * to_double c))"
    by (simp add: js_gt_times_def Let_def)
  have g: "to_double g > to_double s * to_double c"
    if "\<not> double_overflow (to_double s * to_double c) \<and> js_gt_times g s c"
    using that js_gt_times_exceeds [of s c g] by blast
  have h: "js_gt_times g s c = (to_double g > to_double s * to_double c)"
    if "\<not> double_overflow (to_double s * to_double c)
        \<and> to_double (to_double s * to_double c) = to_double s * to_double c"
    using that by (simp add: js_gt_times_def Let_def)
  show ?thesis
    using a b c d e f g h double_1_5 double_1_3 by blast
qed

lemma sample_16: "Number_toString sample_runtime 16 = ''16''" by code_simp

lemma sample_14: "Number_toString sample_runtime 14 = ''14''" by code_simp

theorem gust_thresholds_rounded_witness:
  "current_gust_note sample_runtime (sample_weather 10 16) = '' with gusts up to 16 km/h''
   \<and> current_gust_note sample_runtime (sample_weather 10 14) = []
   \<and> current_gust_note sample_runtime (sample_weather 10 15) = []
   \<and> forecast_day sample_runtime (sample_daily 10 14) 0
       = forecast_day_head sample_runtime (sample_daily 10 14) 0 @ '' with gusts up to 14 km/h'' @ nl @ nl
   \<and> forecast_day sample_runtime (sample_daily 10 13) 0
       = forecast_day_head sample_runtime (sample_daily 10 13) 0 @ nl @ nl"
proof -
  have "current_gust_note sample_runtime (sample_weather 10 16) = '' with gusts up to 16 km/h''"
    using gusts_16_over_10 by (simp add: current_gust_note_def sample_weather_def sample_16)
  moreover have "current_gust_note sample_runtime (sample_weather 10 14) = []"
    "current_gust_note sample_runtime (sample_weather 10 15) = []"
    using gusts_14_over_10 gusts_15_over_10
    by (simp_all add: current_gust_note_def sample_weather_def)
  moreover have l: "0 < length (wind_speed_10m_max (sample_daily 10 x))
      \<and> 0 < length (wind_gusts_10m_max (sample_daily 10 x))" for x
    by (simp add: sample_daily_def)
  have "forecast_day sample_runtime (sample_daily 10 14) 0
       = forecast_day_head sample_runtime (sample_daily 10 14) 0 @ '' with gusts up to 14 km/h'' @ nl @ nl"
    using gust_thresholds_rounded [where rt = sample_runtime and fc = "sample_daily 10 14" and i = 0]
      l [of 14] daily_gusts_14_over_10
    by (simp add: sample_daily_def sample_14)
  moreover have "forecast_day sample_runtime (sample_daily 10 13) 0
       = forecast_day_head sample_runtime (sample_daily 10 13) 0 @ nl @ nl"
    using gust_thresholds_rounded [where rt = sample_runtime and fc = "sample_daily 10 13" and i = 0]
      l [of 13] daily_gusts_13_over_10
    by (simp add: sample_daily_def)
  ultimately show ?thesis by simp
qed

text \<open>
  C4.  The label of a report by coordinates.  The handler of weatherTools passes an object
  with latitude and longitude only to \<^verbatim>\<open>formatCurrentWeather\<close>, whose test
  \<^verbatim>\<open>location ? ... : ...\<close> is true of it: the label is \<open>undefined, undefined\<close>, and the
  branch that renders the coordinates is never taken.  The tool of the single-file server
  renders \<open>Coordinates (lat, lon)\<close> with \<^verbatim>\<open>toFixed(4)\<close>.  The last conjunct evaluates the
  registered handler at latitude 51.5 and longitude -0.12.
\<close>

theorem coordinates_label_undefined:
  "fst (handleGetWeatherByCoordinates rt up clk lat lon c)
     = (case getCurrentWeather up lat lon of
          Inl e \<Rightarrow> Inl e
        | Inr w \<Rightarrow> Inr (current_report rt (now_render clk) w ''undefined, undefined'' ''  ''))
   \<and> fst (get_weather_by_coordinates_tool rt up clk lat lon c)
     = (case getCurrentWeather up lat lon of
          Inl e \<Rightarrow> ''Error retrieving weather: '' @ message e
        | Inr w \<Rightarrow> current_report rt (now_render clk) w
            (''Coordinates ('' @ toFixed rt 4 lat @ '', '' @ toFixed rt 4 lon @ '')'') ''      '')
   \<and> prefix (nl @ ''# Current Weather for undefined, undefined'' @ nl)
        (fst (registerTool
               (handleGetWeatherByCoordinates sample_runtime sample_upstream sample_clock 51.5 (- 0.12))
               empty_cache))"
proof -
  have a: "fst (handleGetWeatherByCoordinates rt up clk lat lon c)
     = (case getCurrentWeather up lat lon of
          Inl e \<Rightarrow> Inl e
        | Inr w \<Rightarrow> Inr (current_report rt (now_render clk) w ''undefined, undefined'' ''  ''))"
    for rt up clk lat lon c
    by (simp add: handleGetWeatherByCoordinates_def named_label_def split: sum.splits)
  have b: "fst (get_weather_by_coordinates_tool rt up clk lat lon c)
     = (case getCurrentWeather up lat lon of
          Inl e \<Rightarrow> ''Error retrieving weather: '' @ message e
        | Inr w \<Rightarrow> current_report rt (now_render clk) w
            (''Coordinates ('' @ toFixed rt 4 lat @ '', '' @ toFixed rt 4 lon @ '')'') ''      '')"
    by (simp add: get_weather_by_coordinates_tool_def coordinates_label_def split: sum.splits)
  have "getCurrentWeather sample_upstream 51.5 (- 0.12) = Inr (sample_weather 10 16)"
    by (simp add: getCurrentWeather_def sample_upstream_def)
  then have "handleGetWeatherByCoordinates sample_runtime sample_upstream sample_clock 51.5 (- 0.12) empty_cache
      = (Inr (current_report sample_runtime (now_render sample_clock) (sample_weather 10 16)
               ''undefined, undefined'' ''  ''), empty_cache, [FetchCurrent 51.5 (- 0.12)])"
    by (simp add: handleGetWeatherByCoordinates_def named_label_def)
  then have "fst (registerTool
               (handleGetWeatherByCoordinates sample_runtime sample_upstream sample_clock 51.5 (- 0.12))
               empty_cache)
      = current_report sample_runtime (now_render sample_clock) (sample_weather 10 16)
               ''undefined, undefined'' ''  ''"
    by (simp add: registerTool_def formatToolResponse_def)
  then have "prefix (nl @ ''# Current Weather for undefined, undefined'' @ nl)
        (fst (registerTool
               (handleGetWeatherByCoordinates sample_runtime sample_upstream sample_clock 51.5 (- 0.12))
               empty_cache))"
    by (simp add: current_report_def current_report_head_def)
  with a b show ?thesis by simp
qed

section \<open>Properties of the forecast parameters\<close>

lemma digit_value_char: "n < 10 \<Longrightarrow> digit_value (digit_char n) = n"
  by (simp add: digit_value_def digit_char_def)

lemma string_nat_nat_string: "string_nat (nat_string n) = n"
proof (induction n rule: nat_string.induct)
  case (1 n)
  show ?case
  proof (cases "n < 10")
    case True
    then show ?thesis
      by (simp add: nat_string.simps [of n] string_nat_def digit_value_char)
  next
    case False
    then have "string_nat (nat_string (n div 10)) = n div 10" using 1 by simp
    then show ?thesis
      using False
      by (simp add: nat_string.simps [of n] string_nat_def digit_value_char)
  qed
qed

lemma nat_string_inj:
  assumes "nat_string m = nat_string n"
  shows "m = n"
proof -
  have "string_nat (nat_string m) = string_nat (nat_string n)"
    by (simp only: assms)
  then show ?thesis by (simp only: string_nat_nat_string)
qed

lemma Number_toString_int:
  assumes "0 \<le> d" and "d \<le> 14"
  shows "Number_toString rt (of_int d) = nat_string (nat d)"
proof -
  have "\<bar>real_of_int d\<bar> \<le> 14" using assms by simp
  then have "\<bar>real_of_int d\<bar> < 2 ^ 53" by simp
  then show ?thesis using assms by (simp add: Number_toString_def int_string_def)
qed

lemma forecast_cacheKey_distinct:
  assumes "1 \<le> d1" "d1 \<le> 14" "1 \<le> d2" "d2 \<le> 14" "d1 \<noteq> d2"
  shows "forecast_cacheKey rt city (of_int d1) \<noteq> forecast_cacheKey rt city (of_int d2)"
proof
  assume "forecast_cacheKey rt city (of_int d1) = forecast_cacheKey rt city (of_int d2)"
  then have "nat_string (nat d1) = nat_string (nat d2)"
    using assms by (simp add: forecast_cacheKey_def Number_toString_int)
  then have "nat d1 = nat d2" by (rule nat_string_inj)
  then show False using assms by simp
qed

lemma nat_string_1: "nat_string (Suc 0) = ''1''"
  by code_simp

lemma nat_string_7: "nat_string 7 = ''7''"
  by code_simp

lemma nat_string_14: "nat_string 14 = ''14''"
  by code_simp


lemma Number_toString_small:
  "Number_toString rt 1 = ''1''" "Number_toString rt 7 = ''7''" "Number_toString rt 14 = ''14''"
  using Number_toString_int [of 1 rt] Number_toString_int [of 7 rt] Number_toString_int [of 14 rt]
  by (simp_all add: nat_string_1 nat_string_7 nat_string_14)



lemma handleGetForecast_key:
  "\<exists>r c' ev. handleGetForecast rt up clk city days c
       = (r, c', CacheRead Forecast (forecast_cacheKey rt city (default_days days)) # ev)
     \<and> (c' = c \<and> CacheWrite Forecast (forecast_cacheKey rt city (default_days days)) \<notin> set ev
        \<or> (\<exists>txt. c' = setCacheEntry Forecast (forecast_cacheKey rt city (default_days days)) txt
                         (now_write clk) c))"
  by (auto simp: handleGetForecast_def Let_def split: option.splits sum.splits)

lemma get_forecast_try_key:
  "\<exists>r c' ev. get_forecast_try rt up clk city days c
       = (r, c', CacheRead Forecast (forecast_cacheKey rt city (default_days days)) # ev)
     \<and> (c' = c \<and> CacheWrite Forecast (forecast_cacheKey rt city (default_days days)) \<notin> set ev
        \<or> (\<exists>txt. c' = setCacheEntry Forecast (forecast_cacheKey rt city (default_days days)) txt
                         (now_read clk) c))"
  by (auto simp: get_forecast_try_def Let_def split: option.splits sum.splits)

text \<open>
  C9.  The schema of \<open>days\<close> accepts 1, 14 and an omitted value, and refuses 0 and 15.  A call
  with 0 or 15 ends as invalid with the cache unchanged and no event; a call with 1, 14 or no
  value runs the handler.  An omitted value counts as 7.  The handler first reads the forecast
  namespace at the key made of the lower-cased city, an underscore and the day count, and
  writes nowhere else; for whole day counts from 1 to 14, different counts give different
  keys.
\<close>

theorem forecast_days_boundary:
  "days_schema (Some 1) \<and> days_schema (Some 14) \<and> days_schema None
   \<and> \<not> days_schema (Some 0) \<and> \<not> days_schema (Some 15)
   \<and> call_tool (days_schema (Some 0)) handler c = (InvalidParams, c, [])
   \<and> call_tool (days_schema (Some 15)) handler c = (InvalidParams, c, [])
   \<and> call_tool (days_schema (Some 1)) handler c
       = (Completed (fst (handler c)), fst (snd (handler c)), snd (snd (handler c)))
   \<and> call_tool (days_schema (Some 14)) handler c
       = (Completed (fst (handler c)), fst (snd (handler c)), snd (snd (handler c)))
   \<and> call_tool (days_schema None) handler c
       = (Completed (fst (handler c)), fst (snd (handler c)), snd (snd (handler c)))
   \<and> default_days None = 7
   \<and> forecast_cacheKey rt city (default_days (Some 1)) = toLowerCase rt city @ ''_1''
   \<and> forecast_cacheKey rt city (default_days (Some 14)) = toLowerCase rt city @ ''_14''
   \<and> forecast_cacheKey rt city (default_days None) = toLowerCase rt city @ ''_7''
   \<and> (\<exists>r c' ev. handleGetForecast rt up clk city days c
         = (r, c', CacheRead Forecast (forecast_cacheKey rt city (default_days days)) # ev)
       \<and> (c' = c \<and> CacheWrite Forecast (forecast_cacheKey rt city (default_days days)) \<notin> set ev
          \<or> (\<exists>txt. c' = setCacheEntry Forecast (forecast_cacheKey rt city (default_days days)) txt
                         (now_write clk) c)))
   \<and> (\<exists>r c' ev. get_forecast_try rt up clk city days c
         = (r, c', CacheRead Forecast (forecast_cacheKey rt city (default_days days)) # ev)
       \<and> (c' = c \<and> CacheWrite Forecast (forecast_cacheKey rt city (default_days days)) \<notin> set ev
          \<or> (\<exists>txt. c' = setCacheEntry Forecast (forecast_cacheKey rt city (default_days days)) txt
                         (now_read clk) c)))
   \<and> (1 \<le> d1 \<and> d1 \<le> 14 \<and> 1 \<le> d2 \<and> d2 \<le> 14 \<and> d1 \<noteq> d2 \<longrightarrow>
        forecast_cacheKey rt city (of_int d1) \<noteq> forecast_cacheKey rt city (of_int d2))"
proof -
  have s: "days_schema (Some 1)" "days_schema (Some 14)" "days_schema None"
    "\<not> days_schema (Some 0)" "\<not> days_schema (Some 15)"
    by (simp_all add: days_schema_def)
  have rej: "call_tool (days_schema (Some 0)) handler c = (InvalidParams, c, [])"
    "call_tool (days_schema (Some 15)) handler c = (InvalidParams, c, [])"
    by (simp_all add: call_tool_def days_schema_def)
  have acc: "call_tool (days_schema (Some 1)) handler c
       = (Completed (fst (handler c)), fst (snd (handler c)), snd (snd (handler c)))"
    "call_tool (days_schema (Some 14)) handler c
       = (Completed (fst (handler c)), fst (snd (handler c)), snd (snd (handler c)))"
    "call_tool (days_schema None) handler c
       = (Completed (fst (handler c)), fst (snd (handler c)), snd (snd (handler c)))"
    by (simp_all add: call_tool_def days_schema_def split: prod.splits)
  have k: "default_days None = 7"
    "forecast_cacheKey rt city (default_days (Some 1)) = toLowerCase rt city @ ''_1''"
    "forecast_cacheKey rt city (default_days (Some 14)) = toLowerCase rt city @ ''_14''"
    "forecast_cacheKey rt city (default_days None) = toLowerCase rt city @ ''_7''"
    by (simp_all add: default_days_def forecast_cacheKey_def Number_toString_small)
  have d: "1 \<le> d1 \<and> d1 \<le> 14 \<and> 1 \<le> d2 \<and> d2 \<le> 14 \<and> d1 \<noteq> d2 \<longrightarrow>
        forecast_cacheKey rt city (of_int d1) \<noteq> forecast_cacheKey rt city (of_int d2)"
    using forecast_cacheKey_distinct [of d1 d2 rt city] by blast
  show ?thesis
    by (intro conjI)
      (fact s rej acc k d handleGetForecast_key get_forecast_try_key)+
qed

lemma sample_key_7: "forecast_cacheKey sample_runtime ''London'' 7 = ''london_7''"
  by code_simp

lemma sample_key_14: "forecast_cacheKey sample_runtime ''London'' 14 = ''london_14''"
  by code_simp

theorem forecast_days_boundary_witness:
  "(1::int) \<le> 7 \<and> (7::int) \<le> 14 \<and> (1::int) \<le> 14 \<and> (7::int) \<noteq> 14
   \<and> forecast_cacheKey sample_runtime ''London'' 7 = ''london_7''
   \<and> forecast_cacheKey sample_runtime ''London'' 14 = ''london_14''
   \<and> forecast_cacheKey sample_runtime ''London'' 7 \<noteq> forecast_cacheKey sample_runtime ''London'' 14"
proof -
  have "forecast_cacheKey sample_runtime ''London'' (of_int 7)
      \<noteq> forecast_cacheKey sample_runtime ''London'' (of_int 14)"
    using forecast_days_boundary [where ?d1.0 = 7 and ?d2.0 = 14 and rt = sample_runtime
      and city = "''London''" and handler = "\<lambda>c. (''ok'', c, [])" and c = empty_cache
      and up = sample_upstream and clk = sample_clock and days = None]
    by simp
  then show ?thesis by (simp add: sample_key_7 sample_key_14)
qed

end
